theory Spec2Isabelle
  imports Complex_Main
begin

section \<open>Maintainability scorer (maintainability-check.js)\<close>

text \<open>
  Source: \<open>src/unnamed/part_003\<close> (the script \<open>scripts/maintainability-check.js\<close>).
  JavaScript numbers are modelled exactly: counts (cyclomatic complexity, line counts) as
  \<open>int\<close>, scores as \<open>real\<close>. Rounding of IEEE doubles is outside the model.
\<close>

subsection \<open>Configuration\<close>

definition excellent :: real where "excellent = 90"
definition good :: real where "good = 80"
definition acceptable :: real where "acceptable = 70"
definition needsImprovement :: real where "needsImprovement = 60"

definition maxCyclomatic :: int where "maxCyclomatic = 10"
definition maxLines :: int where "maxLines = 300"

subsection \<open>Data returned by analyzeFileComplexity\<close>

record functionMetric =
  f_name :: string
  f_complexity :: int
  f_params :: int
  f_lines :: int
  f_maintainability :: real

text \<open>
  The \<open>error\<close> property is present only on the entry built in the \<open>catch\<close> branch, where it
  holds the exception's message.
\<close>

record fileMetric =
  filePath :: string
  error :: "string option"
  complexity :: int
  maintainability :: real
  functionList :: "functionMetric list"
  lines :: int
  dependencies :: int

text \<open>\<open>if (result.error)\<close>: a missing property and the empty string are both falsy.\<close>

definition hasError :: "fileMetric \<Rightarrow> bool" where
  "hasError r = (case error r of None \<Rightarrow> False | Some msg \<Rightarrow> msg \<noteq> [])"

subsection \<open>calculateMaintainabilityScore\<close>

definition complexFunctions :: "fileMetric \<Rightarrow> functionMetric list" where
  "complexFunctions r = filter (\<lambda>f. f_complexity f > maxCyclomatic) (functionList r)"

text \<open>The body of the loop after the \<open>continue\<close>: the three penalty steps on \<open>fileScore\<close>.\<close>

definition fileScore :: "fileMetric \<Rightarrow> real" where
  "fileScore r =
     (let s0 = maintainability r;
          s1 = (if complexity r > maxCyclomatic
                then max 0 (s0 - real_of_int ((complexity r - maxCyclomatic) * 2))
                else s0);
          s2 = (if lines r > maxLines
                then max 0 (s1 - real_of_int (lines r - maxLines) / 50)
                else s1);
          s3 = (if length (complexFunctions r) > 0
                then max 0 (s2 - real (length (complexFunctions r) * 3))
                else s2)
      in s3)"

definition weight :: "fileMetric \<Rightarrow> real" where
  "weight r = real_of_int (max 1 (lines r))"

text \<open>The \<open>for\<close> loop over the results, threading \<open>(totalScore, totalWeight)\<close>.\<close>

fun scoreLoop :: "fileMetric list \<Rightarrow> real \<times> real \<Rightarrow> real \<times> real" where
  "scoreLoop [] acc = acc"
| "scoreLoop (r # rs) (totalScore, totalWeight) =
     (if hasError r then scoreLoop rs (totalScore, totalWeight)
      else scoreLoop rs (totalScore + fileScore r * weight r, totalWeight + weight r))"

definition calculateMaintainabilityScore :: "fileMetric list \<Rightarrow> real" where
  "calculateMaintainabilityScore results =
     (if length results = 0 then 0
      else (case scoreLoop results (0, 0) of
              (totalScore, totalWeight) \<Rightarrow>
                if totalWeight > 0 then totalScore / totalWeight else 0))"

subsection \<open>Reading of the score used in the specification\<close>

text \<open>
  The three penalties as the specification words them, and the score it describes: the raw
  sub-score minus every applicable penalty, floored at zero.
\<close>

definition complexityPenalty :: "fileMetric \<Rightarrow> real" where
  "complexityPenalty r =
     (if complexity r > maxCyclomatic then 2 * real_of_int (complexity r - maxCyclomatic) else 0)"

definition sizePenalty :: "fileMetric \<Rightarrow> real" where
  "sizePenalty r = (if lines r > maxLines then real_of_int (lines r - maxLines) / 50 else 0)"

definition functionPenalty :: "fileMetric \<Rightarrow> real" where
  "functionPenalty r = 3 * real (length (complexFunctions r))"

definition penaltyApplies :: "fileMetric \<Rightarrow> bool" where
  "penaltyApplies r \<longleftrightarrow>
     complexity r > maxCyclomatic \<or> lines r > maxLines \<or> length (complexFunctions r) > 0"

definition specPenalizedScore :: "fileMetric \<Rightarrow> real" where
  "specPenalizedScore r =
     max 0 (maintainability r - complexityPenalty r - sizePenalty r - functionPenalty r)"


text \<open>What one entry adds to \<open>totalScore\<close> and to \<open>totalWeight\<close> in the loop.\<close>

definition contribution :: "fileMetric \<Rightarrow> real" where
  "contribution r = (if hasError r then 0 else fileScore r * weight r)"

definition effectiveWeight :: "fileMetric \<Rightarrow> real" where
  "effectiveWeight r = (if hasError r then 0 else weight r)"

subsection \<open>Sample metrics\<close>

definition plainFile :: fileMetric where
  "plainFile = \<lparr>filePath = ''src/plain.js'', error = None, complexity = 1,
     maintainability = 171, functionList = [], lines = 10, dependencies = 0\<rparr>"

definition negativeFile :: fileMetric where
  "negativeFile = \<lparr>filePath = ''src/dense.js'', error = None, complexity = 1,
     maintainability = - 5, functionList = [], lines = 10, dependencies = 0\<rparr>"



definition tangledFile :: fileMetric where
  "tangledFile = \<lparr>filePath = ''src/tangled.js'', error = None, complexity = 25,
     maintainability = 80,
     functionList = [\<lparr>f_name = ''route'', f_complexity = 25, f_params = 2, f_lines = 120,
                       f_maintainability = 40\<rparr>],
     lines = 400, dependencies = 3\<rparr>"

definition brokenFile :: fileMetric where
  "brokenFile = \<lparr>filePath = ''src/broken.js'', error = Some ''Unexpected token (3:7)'',
     complexity = 0, maintainability = 0, functionList = [], lines = 0, dependencies = 0\<rparr>"

subsection \<open>Grades, recommendations and the report\<close>

datatype grade = Excellent | Good | Acceptable | NeedsImprovement | RequiresRefactoring

definition getGrade :: "real \<Rightarrow> grade" where
  "getGrade score =
     (if score \<ge> excellent then Excellent
      else if score \<ge> good then Good
      else if score \<ge> acceptable then Acceptable
      else if score \<ge> needsImprovement then NeedsImprovement
      else RequiresRefactoring)"

text \<open>A count inside a template literal: its decimal digits.\<close>

fun showNat :: "nat \<Rightarrow> string" where
  "showNat n =
     (if n < 10 then [char_of (48 + n)]
      else showNat (n div 10) @ [char_of (48 + n mod 10)])"

declare showNat.simps [simp del]

record recommendation =
  r_type :: string
  r_message :: string
  r_action :: string

definition generateRecommendations :: "fileMetric list \<Rightarrow> real \<Rightarrow> recommendation list" where
  "generateRecommendations results overallScore =
     (let complexFiles = filter (\<lambda>r. complexity r > maxCyclomatic) results;
          largeFiles = filter (\<lambda>r. lines r > maxLines) results;
          complexFns = concat (map complexFunctions results);
          longFunctions = concat (map (\<lambda>r. filter (\<lambda>f. f_lines f > 50) (functionList r)) results)
      in (if overallScore < acceptable
          then [\<lparr>r_type = ''critical'',
                 r_message = ''Overall maintainability score is below acceptable threshold'',
                 r_action = ''Consider major refactoring to improve code structure and reduce complexity''\<rparr>]
          else [])
       @ (if length complexFiles > 0
          then [\<lparr>r_type = ''warning'',
                 r_message = showNat (length complexFiles) @ '' files have high cyclomatic complexity'',
                 r_action = ''Break down complex functions into smaller, focused functions''\<rparr>]
          else [])
       @ (if length largeFiles > 0
          then [\<lparr>r_type = ''warning'',
                 r_message = showNat (length largeFiles) @ '' files exceed recommended line count'',
                 r_action = ''Split large files into smaller modules with single responsibilities''\<rparr>]
          else [])
       @ (if length complexFns > 0
          then [\<lparr>r_type = ''info'',
                 r_message = showNat (length complexFns) @ '' functions have high complexity'',
                 r_action = ''Refactor complex functions using composition and early returns''\<rparr>]
          else [])
       @ (if length longFunctions > 0
          then [\<lparr>r_type = ''info'',
                 r_message = showNat (length longFunctions) @ '' functions are longer than 50 lines'',
                 r_action = ''Extract common patterns and break down long functions''\<rparr>]
          else []))"

record summary =
  totalFiles :: nat
  errorFiles :: nat
  averageComplexity :: real
  averageMaintainability :: real
  totalLines :: int
  complexFiles :: nat
  largeFiles :: nat

record report =
  rep_projectName :: string
  rep_sourceDir :: string
  rep_timestamp :: string
  overallScore :: real
  rep_grade :: grade
  rep_summary :: summary
  rep_files :: "fileMetric list"
  recommendations :: "recommendation list"

text \<open>
  The mutable fields of \<open>config\<close> and the clock are parameters. The two averages divide
  by \<open>results.length\<close>; \<open>main\<close> calls this with a non-empty list only.
\<close>

definition generateReport ::
  "string \<Rightarrow> string \<Rightarrow> string \<Rightarrow> fileMetric list \<Rightarrow> real \<Rightarrow> report" where
  "generateReport cfgProjectName cfgSourceDir now results score =
     \<lparr>rep_projectName = cfgProjectName,
      rep_sourceDir = cfgSourceDir,
      rep_timestamp = now,
      overallScore = score,
      rep_grade = getGrade score,
      rep_summary =
        \<lparr>totalFiles = length results,
         errorFiles = length (filter hasError results),
         averageComplexity =
           real_of_int (sum_list (map complexity results)) / real (length results),
         averageMaintainability =
           sum_list (map maintainability results) / real (length results),
         totalLines = sum_list (map lines results),
         complexFiles = length (filter (\<lambda>r. complexity r > maxCyclomatic) results),
         largeFiles = length (filter (\<lambda>r. lines r > maxLines) results)\<rparr>,
      rep_files = results,
      recommendations = generateRecommendations results score\<rparr>"

subsection \<open>main of the scorer\<close>

text \<open>
  Inputs of one run: the parsed options, the mutable part of \<open>config\<close>, whether the analyzer
  module can be imported, the files \<open>getFilesToAnalyze\<close> found, and what
  \<open>analyzeFileComplexity\<close> returns for each. The files written are named relative to the
  working directory; how a report is rendered as text, JSON or HTML is not modelled.
\<close>

record scorerOptions =
  s_verbose :: bool
  s_quiet :: bool
  s_threshold :: "real option"
  s_format :: string
  s_includeTests :: bool

record scorerInput =
  scorerOpts :: scorerOptions
  helpRequested :: bool
  cfgProjectName :: string
  cfgSourceDir :: string
  analyzerAvailable :: bool
  filesFound :: "string list"
  analyzeFileComplexity :: "string \<Rightarrow> fileMetric"
  relativePath :: "string \<Rightarrow> string"
  timestamp :: string

text \<open>
  Console entries: a line of text, the usage text, the header banner, the rendering of a
  report by \<open>printConsoleReport\<close>, and the two final messages (the second shows the
  threshold).
\<close>

datatype scorerEntry =
  Text string | Usage | Banner string string | ConsoleReport report | Passed | BelowThreshold real

record scorerRun =
  s_console :: "scorerEntry list"
  s_report :: "report option"
  s_written :: "(string \<times> report) list"
  s_exit :: int

definition saveReports :: "report \<Rightarrow> scorerOptions \<Rightarrow> (string \<times> report) list" where
  "saveReports rep opts =
     (''reports/maintainability/maintainability-report.json'', rep)
       # (if s_format opts = ''html'' \<or> s_format opts = ''all''
          then [(''reports/maintainability/maintainability-report.html'', rep)] else [])"

definition handleReports :: "report \<Rightarrow> scorerOptions \<Rightarrow> scorerEntry list" where
  "handleReports rep opts =
     (if s_quiet opts then []
      else [ConsoleReport rep, Text (CHR 0x0A # ''Reports saved:''),
            Text (''  JSON: reports/maintainability/maintainability-report.json'')]
           @ (if s_format opts = ''html'' \<or> s_format opts = ''all''
              then [Text (''  HTML: reports/maintainability/maintainability-report.html'')]
              else []))"

text \<open>\<open>options.threshold || config.thresholds.acceptable\<close>: zero is falsy.\<close>

definition effectiveThreshold :: "scorerOptions \<Rightarrow> real" where
  "effectiveThreshold opts =
     (case s_threshold opts of None \<Rightarrow> acceptable | Some t \<Rightarrow> if t = 0 then acceptable else t)"

definition maintainabilityMain :: "scorerInput \<Rightarrow> scorerRun" where
  "maintainabilityMain inp =
     (let opts = scorerOpts inp;
          header = (if \<not> s_quiet opts then [Banner (cfgProjectName inp) (cfgSourceDir inp)]
                    else [])
      in if helpRequested inp then
           \<lparr>s_console = [Usage], s_report = None, s_written = [], s_exit = 0\<rparr>
         else if \<not> analyzerAvailable inp then
           \<lparr>s_console = header @
              [Text ''Missing required tools: typhonjs-escomplex-module'',
               Text ''Install with: npm install -D typhonjs-escomplex-module''],
            s_report = None, s_written = [], s_exit = 0\<rparr>
         else if length (filesFound inp) = 0 then
           \<lparr>s_console = header @ [Text ''No files found to analyze''],
            s_report = None, s_written = [], s_exit = 0\<rparr>
         else
           (let files = filesFound inp;
                results = map (analyzeFileComplexity inp) files;
                score = calculateMaintainabilityScore results;
                rep = generateReport (cfgProjectName inp) (cfgSourceDir inp) (timestamp inp)
                        results score;
                passed = (score \<ge> effectiveThreshold opts)
            in \<lparr>s_console = header
                  @ (if \<not> s_quiet opts
                     then [Text (''Analyzing '' @ showNat (length files) @ '' files...'')] else [])
                  @ (if s_verbose opts \<and> \<not> s_quiet opts
                     then map (\<lambda>f. Text (''  Analyzing: '' @ relativePath inp f)) files else [])
                  @ handleReports rep opts
                  @ (if \<not> s_quiet opts
                     then [if passed then Passed else BelowThreshold (effectiveThreshold opts)]
                     else []),
                s_report = Some rep,
                s_written = saveReports rep opts,
                s_exit = (if passed then 0 else 1)\<rparr>))"

definition noFilesInput :: scorerInput where
  "noFilesInput =
     \<lparr>scorerOpts = \<lparr>s_verbose = False, s_quiet = False, s_threshold = None,
                     s_format = ''console'', s_includeTests = False\<rparr>,
      helpRequested = False,
      cfgProjectName = ''Levero Frontend'',
      cfgSourceDir = ''src'',
      analyzerAvailable = True,
      filesFound = [],
      analyzeFileComplexity = (\<lambda>f. plainFile\<lparr>filePath := f\<rparr>),
      relativePath = (\<lambda>f. f),
      timestamp = ''2025-07-10T05:56:46.731Z''\<rparr>"

section \<open>Quality checks runner (quality-check.js)\<close>

text \<open>
  Source: \<open>src/unnamed/part_001\<close> from line 792 (the script \<open>scripts/quality-check.js\<close>).
  Console output is kept as the message of each \<open>console.log\<close> or \<open>printMessage\<close>
  call. Colour escapes, emoji (with the blank that follows them) and box-drawing characters
  carry no information and are left out; the usage text and the header banner are kept as
  entries of their own.
\<close>

subsection \<open>Small string helpers of the JavaScript runtime\<close>

definition toUpperCase :: "string \<Rightarrow> string" where
  "toUpperCase s =
     map (\<lambda>c. let n = (of_char c :: nat) in if 97 \<le> n \<and> n \<le> 122 then char_of (n - 32) else c) s"

fun join :: "string \<Rightarrow> string list \<Rightarrow> string" where
  "join sep [] = []"
| "join sep [x] = x"
| "join sep (x # y # ys) = x @ sep @ join sep (y # ys)"

text \<open>
  \<open>String.prototype.replace\<close> with a string replacement expands \<open>$$\<close>, \<open>$&\<close>,
  \<open>$`\<close> and \<open>$'\<close> in it; the pattern has no capture group, so \<open>$1\<close> and the
  like stay as they are.
\<close>

fun expandTemplate :: "string \<Rightarrow> string \<Rightarrow> string \<Rightarrow> string \<Rightarrow> string" where
  "expandTemplate [] pre matched post = []"
| "expandTemplate [c] pre matched post = [c]"
| "expandTemplate (c # d # rest) pre matched post =
     (if c = CHR ''$'' then
        (if d = CHR ''$'' then CHR ''$'' # expandTemplate rest pre matched post
         else if d = CHR ''&'' then matched @ expandTemplate rest pre matched post
         else if d = CHR 0x60 then pre @ expandTemplate rest pre matched post
         else if d = CHR 0x27 then post @ expandTemplate rest pre matched post
         else c # expandTemplate (d # rest) pre matched post)
      else c # expandTemplate (d # rest) pre matched post)"

text \<open>
  \<open>arg.replace(/src\//g, template)\<close>: every occurrence of \<open>src/\<close>, left to right;
  \<open>pre\<close> is the part of the argument already scanned.
\<close>

fun replaceFrom :: "string \<Rightarrow> string \<Rightarrow> string \<Rightarrow> string" where
  "replaceFrom template pre [] = []"
| "replaceFrom template pre (c # cs) =
     (if take 4 (c # cs) = ''src/''
      then expandTemplate template pre ''src/'' (drop 3 cs)
             @ replaceFrom template (pre @ ''src/'') (drop 3 cs)
      else c # replaceFrom template (pre @ [c]) cs)"

definition replaceSrc :: "string \<Rightarrow> string \<Rightarrow> string" where
  "replaceSrc sourceDir arg = replaceFrom (sourceDir @ ''/'') [] arg"

subsection \<open>Tool definitions and tool groups\<close>

record tool =
  command :: string
  args :: "string list"
  fixArgs :: "string list option"
  description :: string
  category :: string
  order :: nat

definition tools :: "(string \<times> tool) list" where
  "tools =
   [(''prettier'',
       \<lparr>command = ''npx'', args = [''prettier'', ''--check'', ''.''],
        fixArgs = Some [''prettier'', ''--write'', ''.''],
        description = ''Code formatting check (Prettier)'',
        category = ''formatting'', order = 1\<rparr>),
    (''import-sorting'',
       \<lparr>command = ''npx'',
        args = [''eslint'', ''.'', ''--config'', ''.eslint-configs/import-sorting.js''],
        fixArgs = Some [''eslint'', ''.'', ''--config'', ''.eslint-configs/import-sorting.js'',
                        ''--fix''],
        description = ''Import sorting and organization (ESLint + import plugin)'',
        category = ''import-sorting'', order = 2\<rparr>),
    (''linting'',
       \<lparr>command = ''npx'',
        args = [''eslint'', ''.'', ''--config'', ''.eslint-configs/linting.js''],
        fixArgs = Some [''eslint'', ''.'', ''--config'', ''.eslint-configs/linting.js'', ''--fix''],
        description = ''Code quality linting (ESLint + SonarJS)'',
        category = ''linting'', order = 3\<rparr>),
    (''eslint'',
       \<lparr>command = ''npx'',
        args = [''eslint'', ''.'', ''--config'', ''.eslint-configs/linting.js''],
        fixArgs = Some [''eslint'', ''.'', ''--config'', ''.eslint-configs/linting.js'', ''--fix''],
        description = ''ESLint standalone execution'',
        category = ''linting'', order = 3\<rparr>),
    (''type-check'',
       \<lparr>command = ''npx'', args = [''tsc'', ''--noEmit''], fixArgs = None,
        description = ''TypeScript type checking'',
        category = ''type-checking'', order = 4\<rparr>),
    (''security-scanning'',
       \<lparr>command = ''npx'',
        args = [''eslint'', ''.'', ''--config'', ''.eslint-configs/security.js''],
        fixArgs = Some [''eslint'', ''.'', ''--config'', ''.eslint-configs/security.js'', ''--fix''],
        description = ''Security vulnerability scanning (ESLint security plugin)'',
        category = ''security-scanning'', order = 5\<rparr>),
    (''vulnerability-checking'',
       \<lparr>command = ''npm'', args = [''audit'', ''--audit-level=moderate''], fixArgs = None,
        description = ''Dependency vulnerability checking (npm audit)'',
        category = ''vulnerability-checking'', order = 6\<rparr>),
    (''dead-code'',
       \<lparr>command = ''npx'', args = [''ts-prune''], fixArgs = None,
        description = ''Dead code detection (ts-prune)'',
        category = ''dead-code'', order = 7\<rparr>),
    (''duplication'',
       \<lparr>command = ''npx'',
        args = [''jscpd'', ''.'', ''--reporters'', ''console,html'', ''--output'',
                ''./reports/duplication'', ''--ignore'',
                ''**/node_modules/**,**/.next/**,**/dist/**''],
        fixArgs = None,
        description = ''Code duplication detection (jscpd)'',
        category = ''duplication'', order = 8\<rparr>),
    (''complexity'',
       \<lparr>command = ''npx'',
        args = [''eslint'', ''.'', ''--config'', ''.eslint-configs/complexity.js''],
        fixArgs = None,
        description = ''Code complexity analysis (ESLint complexity rules)'',
        category = ''complexity'', order = 9\<rparr>),
    (''maintainability'',
       \<lparr>command = ''node'', args = [''scripts/maintainability-check.js''], fixArgs = None,
        description = ''Maintainability index calculation (ESComplex)'',
        category = ''maintainability'', order = 10\<rparr>),
    (''dependency-check'',
       \<lparr>command = ''npx'',
        args = [''depcruise'', ''--validate'', ''.dependency-cruiser.cjs'', ''src/''],
        fixArgs = None,
        description = ''Dependency analysis and validation (dependency-cruiser)'',
        category = ''dependency-check'', order = 11\<rparr>)]"

definition toolGroups :: "(string \<times> string list) list" where
  "toolGroups =
   [(''formatting'', [''prettier'']),
    (''import-sorting'', [''import-sorting'']),
    (''linting'', [''linting'']),
    (''type-checking'', [''type-check'']),
    (''security-scanning'', [''security-scanning'']),
    (''vulnerability-checking'', [''vulnerability-checking'']),
    (''dead-code'', [''dead-code'']),
    (''duplication'', [''duplication'']),
    (''complexity'', [''complexity'']),
    (''maintainability'', [''maintainability'']),
    (''dependency-check'', [''dependency-check'']),
    (''security'', [''security-scanning'', ''vulnerability-checking'']),
    (''analysis'', [''dead-code'', ''duplication'', ''complexity'', ''maintainability'',
                    ''dependency-check'']),
    (''required'', [''prettier'', ''import-sorting'', ''linting'', ''type-check'']),
    (''fast'', [''prettier'', ''import-sorting'', ''linting'', ''type-check'']),
    (''essential'', [''prettier'', ''linting'', ''type-check'']),
    (''all'', [''prettier'', ''import-sorting'', ''linting'', ''type-check'',
               ''security-scanning'', ''vulnerability-checking'', ''dead-code'', ''duplication'',
               ''complexity'', ''maintainability'', ''dependency-check''])]"

text \<open>
  Both tables are plain object literals, so \<open>table[key]\<close> also finds what
  \<open>Object.prototype\<close> provides: a function or object, truthy, and not an array.
\<close>

definition objectPrototypeKeys :: "string list" where
  "objectPrototypeKeys =
     [''constructor'', ''__defineGetter__'', ''__defineSetter__'', ''hasOwnProperty'',
      ''__lookupGetter__'', ''__lookupSetter__'', ''isPrototypeOf'', ''propertyIsEnumerable'',
      ''toString'', ''valueOf'', ''__proto__'', ''toLocaleString'']"

datatype 'a property = Own 'a | Inherited | Absent

definition getProperty :: "(string \<times> 'a) list \<Rightarrow> string \<Rightarrow> 'a property" where
  "getProperty obj key =
     (case map_of obj key of
        Some v \<Rightarrow> Own v
      | None \<Rightarrow> if key \<in> set objectPrototypeKeys then Inherited else Absent)"

text \<open>\<open>toolGroups.formatting\<close> and the like: a group read by a key the table has.\<close>

definition toolGroup :: "string \<Rightarrow> string list" where
  "toolGroup key = (case map_of toolGroups key of Some names \<Rightarrow> names | None \<Rightarrow> [])"

subsection \<open>Options\<close>

record options =
  tool :: string
  fixMode :: bool
  verbose :: bool
  quiet :: bool
  parallel :: bool
  sourceDir :: "string option"
  projectName :: "string option"

text \<open>The two module-level variables \<open>SOURCE_DIR\<close> and \<open>PROJECT_NAME\<close>.\<close>

record globals =
  SOURCE_DIR :: string
  PROJECT_NAME :: string

text \<open>\<open>args[index + 1]\<close> after the first \<open>key\<close>, when it is there and not empty.\<close>

fun argAfter :: "string \<Rightarrow> string list \<Rightarrow> string option" where
  "argAfter key [] = None"
| "argAfter key (a # rest) =
     (if a = key then (case rest of [] \<Rightarrow> None | b # _ \<Rightarrow> if b = [] then None else Some b)
      else argAfter key rest)"

definition parseArgs :: "string list \<Rightarrow> options \<times> globals" where
  "parseArgs argv =
     (let sd = argAfter ''--source-dir'' argv;
          pn = argAfter ''--project-name'' argv
      in (\<lparr>tool = (case argv of [] \<Rightarrow> ''help'' | a # _ \<Rightarrow> if a = [] then ''help'' else a),
           fixMode = (''--fix'' \<in> set argv),
           verbose = (''--verbose'' \<in> set argv \<or> ''-v'' \<in> set argv),
           quiet = (''--quiet'' \<in> set argv \<or> ''-q'' \<in> set argv),
           parallel = (''--parallel'' \<in> set argv),
           sourceDir = sd,
           projectName = pn\<rparr>,
          \<lparr>SOURCE_DIR = (case sd of None \<Rightarrow> ''src'' | Some d \<Rightarrow> d),
           PROJECT_NAME = (case pn of None \<Rightarrow> ''Complete Quality Suite'' | Some n \<Rightarrow> n)\<rparr>))"

subsection \<open>Child processes and the observable state\<close>

text \<open>
  Every child process is taken to end: with a \<open>close\<close> event (exit code, elapsed
  milliseconds, what it wrote to stdout) or, when it cannot be started, with an \<open>error\<close>
  event. The script sets no timeout, so a child that never ends would block the run; such
  runs are outside the model. What a child does may depend on everything run before it, so
  the environment is asked with the number of children spawned so far.
\<close>

datatype childOutcome = Closed int nat string | SpawnFailed string

type_synonym spawner = "nat \<Rightarrow> string \<Rightarrow> string list \<Rightarrow> childOutcome"

text \<open>A spawned child: the tool it belongs to, the executable and its arguments.\<close>

datatype child = Probe string string "string list" | Run string string "string list"

datatype entry = Line string | HelpText string | Header string string

text \<open>
  \<open>batches\<close> lists the calls of \<open>runTool\<close> in flight together, oldest first: one call
  per batch when tools run in sequence, all calls of a \<open>Promise.all\<close> in one batch. Each
  call is the list of children it spawned, in order.
\<close>

record world =
  batches :: "child list list list"
  console :: "entry list"
  reportsDir :: bool

definition spawnCount :: "world \<Rightarrow> nat" where
  "spawnCount w = length (concat (concat (batches w)))"

datatype 'a outcome = Returned world 'a | Threw world string

record toolRun =
  children :: "child list"
  printed :: "entry list"
  success :: bool

datatype toolResult = Finished toolRun | Rejected string

subsection \<open>checkToolAvailability and runTool\<close>

definition exitedZero :: "childOutcome \<Rightarrow> bool" where
  "exitedZero r = (case r of Closed code _ _ \<Rightarrow> code = 0 | SpawnFailed _ \<Rightarrow> False)"

text \<open>
  Returns the probe spawned, if any, and the answer. An inherited entry has no
  \<open>command\<close>, and \<open>spawn\<close> rejects a command that is not a string, so the promise is
  rejected before anything is spawned; every registered tool has a first argument.
\<close>

definition checkToolAvailability ::
  "spawner \<Rightarrow> nat \<Rightarrow> string \<Rightarrow> string + (child list \<times> bool)" where
  "checkToolAvailability sp n toolName =
     (case getProperty tools toolName of
        Absent \<Rightarrow> Inr ([], False)
      | Inherited \<Rightarrow> Inl ''The \"file\" argument must be of type string''
      | Own t \<Rightarrow>
          if command t = ''npx'' then
            (case args t of
               [] \<Rightarrow> Inl ''The arguments must be strings''
             | actualTool # _ \<Rightarrow>
                 Inr ([Probe toolName ''npx'' [actualTool, ''--version''] ],
                      exitedZero (sp n ''npx'' [actualTool, ''--version''])))
          else
            Inr ([Probe toolName (command t) [''--version''] ],
                 exitedZero (sp n (command t) [''--version''])))"

text \<open>\<open>options.fix && tool.fixArgs ? tool.fixArgs : tool.args\<close>\<close>

definition chooseArgs :: "options \<Rightarrow> tool \<Rightarrow> string list" where
  "chooseArgs opts t =
     (case fixArgs t of Some fa \<Rightarrow> if fixMode opts then fa else args t | None \<Rightarrow> args t)"

text \<open>
  For an inherited entry the availability check is always rejected, and \<open>runTool\<close> with it.
\<close>

definition runTool :: "spawner \<Rightarrow> globals \<Rightarrow> options \<Rightarrow> string \<Rightarrow> nat \<Rightarrow> toolResult" where
  "runTool sp g opts toolName n =
     (case getProperty tools toolName of
        Absent \<Rightarrow>
          Finished \<lparr>children = [], printed = [Line (''Unknown tool: '' @ toolName)],
                    success = False\<rparr>
      | Inherited \<Rightarrow>
          (case checkToolAvailability sp n toolName of
             Inl e \<Rightarrow> Rejected e
           | Inr (probes, _) \<Rightarrow>
               Finished \<lparr>children = probes, printed = [], success = False\<rparr>)
      | Own t \<Rightarrow>
          (case checkToolAvailability sp n toolName of
             Inl e \<Rightarrow> Rejected e
           | Inr (probes, isAvailable) \<Rightarrow>
               if \<not> isAvailable then
                 Finished \<lparr>children = probes,
                           printed = [Line (description t @ '' - TOOL NOT INSTALLED''),
                                      Line (''Install with: npm install -D '' @ command t)],
                           success = False\<rparr>
               else
                 (let processedArgs = map (replaceSrc (SOURCE_DIR g)) (chooseArgs opts t);
                      intro =
                        (if \<not> quiet opts then
                           Line (description t)
                             # (if verbose opts
                                then [Line (''  Command: '' @ command t @ '' ''
                                              @ join '' '' processedArgs)]
                                else [])
                         else []);
                      spawned = probes @ [Run toolName (command t) processedArgs]
                  in case sp (n + length probes) (command t) processedArgs of
                       Closed code duration out \<Rightarrow>
                         if code = 0 then
                           Finished \<lparr>children = spawned,
                             printed = intro @
                               (if \<not> quiet opts
                                then [Line (description t @ '' - PASSED ('' @ showNat duration
                                              @ ''ms)'')]
                                else []),
                             success = True\<rparr>
                         else
                           Finished \<lparr>children = spawned,
                             printed = intro @
                               (if \<not> quiet opts
                                then [Line (description t @ '' - FAILED ('' @ showNat duration
                                              @ ''ms)'')]
                                else if out \<noteq> [] then [Line out] else []),
                             success = False\<rparr>
                     | SpawnFailed message \<Rightarrow>
                         Finished \<lparr>children = spawned,
                           printed = intro @ [Line (description t @ '' - ERROR: '' @ message)],
                           success = False\<rparr>)))"

subsection \<open>Running several tools\<close>

type_synonym result = "string \<times> bool"

fun runToolsSequential ::
  "spawner \<Rightarrow> globals \<Rightarrow> options \<Rightarrow> string list \<Rightarrow> world \<Rightarrow> result list outcome" where
  "runToolsSequential sp g opts [] w = Returned w []"
| "runToolsSequential sp g opts (toolName # rest) w =
     (case runTool sp g opts toolName (spawnCount w) of
        Rejected e \<Rightarrow> Threw w e
      | Finished r \<Rightarrow>
          (case runToolsSequential sp g opts rest
                  (w\<lparr>batches := batches w @ [ [children r] ],
                     console := console w @ printed r\<rparr>) of
             Threw w' e \<Rightarrow> Threw w' e
           | Returned w' results \<Rightarrow> Returned w' ((toolName, success r) # results)))"

text \<open>
  \<open>toolNames.map\<close> starts every call before any is awaited. The calls are listed in the
  order of \<open>toolNames\<close>, which is also the order of the results of \<open>Promise.all\<close>.
\<close>

fun launchAll ::
  "spawner \<Rightarrow> globals \<Rightarrow> options \<Rightarrow> string list \<Rightarrow> nat \<Rightarrow> (string \<times> toolResult) list" where
  "launchAll sp g opts [] n = []"
| "launchAll sp g opts (toolName # rest) n =
     (let r = runTool sp g opts toolName n
      in (toolName, r)
           # launchAll sp g opts rest
               (n + (case r of Finished t \<Rightarrow> length (children t) | Rejected _ \<Rightarrow> 0)))"

definition childrenOf :: "toolResult \<Rightarrow> child list" where
  "childrenOf r = (case r of Finished t \<Rightarrow> children t | Rejected _ \<Rightarrow> [])"

definition printedOf :: "toolResult \<Rightarrow> entry list" where
  "printedOf r = (case r of Finished t \<Rightarrow> printed t | Rejected _ \<Rightarrow> [])"

definition successOf :: "toolResult \<Rightarrow> bool" where
  "successOf r = (case r of Finished t \<Rightarrow> success t | Rejected _ \<Rightarrow> False)"

fun firstRejection :: "(string \<times> toolResult) list \<Rightarrow> string option" where
  "firstRejection [] = None"
| "firstRejection ((_, Rejected e) # _) = Some e"
| "firstRejection ((_, Finished _) # rest) = firstRejection rest"

definition runToolsParallel ::
  "spawner \<Rightarrow> globals \<Rightarrow> options \<Rightarrow> string list \<Rightarrow> world \<Rightarrow> result list outcome" where
  "runToolsParallel sp g opts toolNames w =
     (let calls = launchAll sp g opts toolNames (spawnCount w);
          w' = w\<lparr>batches := batches w @ [map (\<lambda>(_, r). childrenOf r) calls],
                 console := console w @ concat (map (\<lambda>(_, r). printedOf r) calls)\<rparr>
      in case firstRejection calls of
           Some e \<Rightarrow> Threw w' e
         | None \<Rightarrow> Returned w' (map (\<lambda>(toolName, r). (toolName, successOf r)) calls))"

subsection \<open>Reports directory, headers and summary\<close>

definition ensureReportsDirectory :: "world \<Rightarrow> world" where
  "ensureReportsDirectory w = (if \<not> reportsDir w then w\<lparr>reportsDir := True\<rparr> else w)"

definition rule60 :: string where
  "rule60 = replicate 60 (CHR ''='')"

definition printCategoryHeader :: "string \<Rightarrow> string list \<Rightarrow> entry list" where
  "printCategoryHeader cat names =
     [Line (CHR 0x0A # rule60),
      Line (toUpperCase cat @ '' CHECKS ('' @ showNat (length names) @ '' tools)''),
      Line rule60]"

definition printSummary :: "result list \<Rightarrow> options \<Rightarrow> entry list \<times> bool" where
  "printSummary results opts =
     (let totalTools = length results;
          passedTools = length (filter snd results);
          failedTools = totalTools - passedTools;
          failed = filter (\<lambda>r. \<not> snd r) results
      in ([Line (CHR 0x0A # rule60), Line ''QUALITY CHECKS SUMMARY'', Line rule60,
           Line (''Total tools: '' @ showNat totalTools),
           Line (''Passed: '' @ showNat passedTools)]
          @ (if failedTools > 0 then [Line (''Failed: '' @ showNat failedTools)] else [])
          @ (if length failed > 0
             then Line (CHR 0x0A # ''Failed tools:'') # map (\<lambda>r. Line (''  '' @ fst r)) failed
             else [])
          @ (if failedTools = 0 then
               Line (CHR 0x0A # ''All quality checks passed!'')
                 # (if fixMode opts then [Line ''Some issues may have been auto-fixed.''] else [])
             else
               Line (CHR 0x0A # showNat failedTools @ '' quality check(s) failed!'')
                 # (if \<not> fixMode opts
                    then [Line ''Try running with --fix to automatically fix some issues.'']
                    else [])),
          failedTools = 0))"

subsection \<open>main\<close>

definition say :: "entry list \<Rightarrow> world \<Rightarrow> world" where
  "say ls w = w\<lparr>console := console w @ ls\<rparr>"

definition andThen ::
  "'a outcome \<Rightarrow> (world \<Rightarrow> 'a \<Rightarrow> 'b outcome) \<Rightarrow> 'b outcome" where
  "andThen m f = (case m of Threw w e \<Rightarrow> Threw w e | Returned w x \<Rightarrow> f w x)"

text \<open>The fix-mode branch: \<open>options.fix && options.tool === "all"\<close>.\<close>

fun runCategoriesNoFix ::
  "spawner \<Rightarrow> globals \<Rightarrow> options \<Rightarrow> string list \<Rightarrow> world \<Rightarrow> result list
     \<Rightarrow> result list outcome" where
  "runCategoriesNoFix sp g opts [] w results = Returned w results"
| "runCategoriesNoFix sp g opts (cat # cats) w results =
     (let categoryTools = toolGroup cat;
          w1 = (if \<not> quiet opts then say (printCategoryHeader cat categoryTools) w else w)
      in andThen (runToolsSequential sp g (opts\<lparr>fixMode := False\<rparr>) categoryTools w1)
           (\<lambda>w2 categoryResults.
              runCategoriesNoFix sp g opts cats w2 (results @ categoryResults)))"

definition runFixAll :: "spawner \<Rightarrow> globals \<Rightarrow> options \<Rightarrow> world \<Rightarrow> result list outcome" where
  "runFixAll sp g opts w =
     (let w1 = (if \<not> quiet opts
                then say [Line ''Running auto-fix in sequence to avoid conflicts...''] w else w);
          w2 = (if \<not> quiet opts
                then say (printCategoryHeader ''formatting'' (toolGroup ''formatting'')) w1
                else w1)
      in andThen (runToolsSequential sp g opts (toolGroup ''formatting'') w2)
           (\<lambda>w3 formattingResults.
              let w4 = (if \<not> quiet opts
                        then say (printCategoryHeader ''linting'' (toolGroup ''linting'')) w3
                        else w3)
              in andThen (runToolsSequential sp g (opts\<lparr>fixMode := True\<rparr>) [''eslint''] w4)
                   (\<lambda>w5 lintingResults.
                      case runTool sp g (opts\<lparr>fixMode := False\<rparr>) ''type-check'' (spawnCount w5) of
                        Rejected e \<Rightarrow> Threw w5 e
                      | Finished r \<Rightarrow>
                          runCategoriesNoFix sp g opts [''security'', ''analysis'']
                            (w5\<lparr>batches := batches w5 @ [ [children r] ],
                                console := console w5 @ printed r\<rparr>)
                            (formattingResults @ lintingResults
                               @ [(''type-check'', success r)]))))"

text \<open>The normal branch for \<open>all\<close>: the loop over the four category names.\<close>

fun runCategories ::
  "spawner \<Rightarrow> globals \<Rightarrow> options \<Rightarrow> string list \<Rightarrow> string list \<Rightarrow> world \<Rightarrow> result list
     \<Rightarrow> result list outcome" where
  "runCategories sp g opts toolsToRun [] w results = Returned w results"
| "runCategories sp g opts toolsToRun (cat # cats) w results =
     (let categoryTools = filter (\<lambda>t. t \<in> set toolsToRun) (toolGroup cat)
      in if length categoryTools = 0 then runCategories sp g opts toolsToRun cats w results
         else
           (let w1 = (if \<not> quiet opts then say (printCategoryHeader cat categoryTools) w else w)
            in andThen
                 (if parallel opts \<and> cat \<noteq> ''formatting''
                  then runToolsParallel sp g opts categoryTools w1
                  else runToolsSequential sp g opts categoryTools w1)
                 (\<lambda>w2 categoryResults.
                    runCategories sp g opts toolsToRun cats w2 (results @ categoryResults))))"

text \<open>
  What \<open>toolsToRun\<close> holds after the lookup: a list of names, or the inherited value that
  is not an array (with its \<open>length\<close> property, if it has one).
\<close>

datatype resolution = Names "string list" | NotAnArray "nat option" | Unknown

definition inheritedLength :: "string \<Rightarrow> nat option" where
  "inheritedLength key =
     (if key = ''__proto__'' then None
      else if key \<in> {''__defineGetter__'', ''__defineSetter__''} then Some 2
      else if key \<in> {''toString'', ''valueOf'', ''toLocaleString''} then Some 0
      else Some 1)"

definition resolve :: "string \<Rightarrow> resolution" where
  "resolve name =
     (case getProperty toolGroups name of
        Own names \<Rightarrow> Names names
      | Inherited \<Rightarrow> NotAnArray (inheritedLength name)
      | Absent \<Rightarrow>
          (case getProperty tools name of
             Absent \<Rightarrow> Unknown
           | _ \<Rightarrow> Names [name]))"

text \<open>
  The process ends by \<open>process.exit\<close>, by the \<open>catch\<close> handler of \<open>main()\<close>
  (exit code 1), or by \<open>main\<close> returning (exit code 0).
\<close>

definition finish :: "result list outcome \<Rightarrow> options \<Rightarrow> world \<times> int" where
  "finish m opts =
     (case m of
        Threw w e \<Rightarrow> (say [Line (''Error: '' @ e)] w, 1)
      | Returned w results \<Rightarrow>
          (case printSummary results opts of
             (ls, ok) \<Rightarrow> (say ls w, if ok then 0 else 1)))"

definition main :: "spawner \<Rightarrow> string list \<Rightarrow> world \<Rightarrow> world \<times> int" where
  "main sp argv w0 =
     (case parseArgs argv of
        (opts, g) \<Rightarrow>
          if tool opts = ''help'' \<or> tool opts = ''--help'' \<or> tool opts = ''-h''
          then (say [HelpText (PROJECT_NAME g)] w0, 0)
          else
            (let w1 = ensureReportsDirectory w0;
                 w2 = (if \<not> quiet opts
                       then say [Header (PROJECT_NAME g) (SOURCE_DIR g)] w1 else w1)
             in case resolve (tool opts) of
                  Unknown \<Rightarrow>
                    (say [Line (''Unknown tool or group: '' @ tool opts),
                          Line ''Use \"help\" to see available options''] w2, 1)
                | NotAnArray len \<Rightarrow>
                    finish
                      (if parallel opts \<and> (case len of Some k \<Rightarrow> k > 1 | None \<Rightarrow> False)
                       then Threw w2 ''toolNames.map is not a function''
                       else Threw w2 ''toolNames is not iterable'')
                      opts
                | Names toolsToRun \<Rightarrow>
                    if fixMode opts \<and> tool opts = ''all'' then finish (runFixAll sp g opts w2) opts
                    else if tool opts = ''all'' then
                      finish
                        (runCategories sp g opts toolsToRun
                           [''formatting'', ''linting'', ''security'', ''analysis''] w2 [])
                        opts
                    else if parallel opts \<and> length toolsToRun > 1
                    then finish (runToolsParallel sp g opts toolsToRun w2) opts
                    else finish (runToolsSequential sp g opts toolsToRun w2) opts))"

subsection \<open>Process start and sample environments\<close>

text \<open>The state when the process starts; the reports directory may or may not exist.\<close>

definition initialWorld :: "bool \<Rightarrow> world" where
  "initialWorld dirExists = \<lparr>batches = [], console = [], reportsDir = dirExists\<rparr>"

definition allChildren :: "world \<Rightarrow> child list" where
  "allChildren w = concat (concat (batches w))"

text \<open>The tools whose command was spawned, in order.\<close>

definition invoked :: "world \<Rightarrow> string list" where
  "invoked w =
     concat (map (\<lambda>c. case c of Run name _ _ \<Rightarrow> [name] | Probe _ _ _ \<Rightarrow> []) (allChildren w))"

definition worldOf :: "'a outcome \<Rightarrow> world" where
  "worldOf m = (case m of Returned w _ \<Rightarrow> w | Threw w _ \<Rightarrow> w)"

text \<open>Every child exits with code 0 after 5 ms.\<close>

definition allPass :: spawner where
  "allPass n cmd as = Closed 0 5 []"

text \<open>The same, except that the type checker reports errors.\<close>

definition tscFails :: spawner where
  "tscFails n cmd as = (if as = [''tsc'', ''--noEmit''] then Closed 2 5 [] else Closed 0 5 [])"

text \<open>
  The categories that are only ever checked; \<open>security\<close> stands for the two security
  categories of the tool table.
\<close>

definition diagnosticCategories :: "string list" where
  "diagnosticCategories =
     [''security-scanning'', ''vulnerability-checking'', ''dead-code'', ''duplication'',
      ''complexity'', ''maintainability'', ''dependency-check'']"

subsection \<open>Predicates on spawned children\<close>

text \<open>A child that runs a tool's check command, and one that runs its fix command.\<close>

definition checkOnly :: "globals \<Rightarrow> child \<Rightarrow> bool" where
  "checkOnly g c =
     (case c of
        Probe _ _ _ \<Rightarrow> True
      | Run name cmd as \<Rightarrow>
          (case map_of tools name of
             None \<Rightarrow> False
           | Some t \<Rightarrow> cmd = command t \<and> as = map (replaceSrc (SOURCE_DIR g)) (args t)))"

definition withFixCommand :: "globals \<Rightarrow> child \<Rightarrow> bool" where
  "withFixCommand g c =
     (case c of
        Probe _ _ _ \<Rightarrow> False
      | Run name cmd as \<Rightarrow>
          (case map_of tools name of
             None \<Rightarrow> False
           | Some t \<Rightarrow>
               (case fixArgs t of
                  None \<Rightarrow> False
                | Some fa \<Rightarrow> as = map (replaceSrc (SOURCE_DIR g)) fa)))"

definition categoryOf :: "string \<Rightarrow> string" where
  "categoryOf name = (case map_of tools name of Some t \<Rightarrow> category t | None \<Rightarrow> [])"

definition okChild :: "globals \<Rightarrow> child \<Rightarrow> bool" where
  "okChild g c =
     (case c of
        Probe _ _ _ \<Rightarrow> True
      | Run name cmd as \<Rightarrow> name = ''prettier'' \<or> name = ''eslint'' \<or> checkOnly g c)"

definition phased :: "globals \<Rightarrow> world \<Rightarrow> bool" where
  "phased g w \<longleftrightarrow>
     (\<forall>b\<in>set (batches w). length b = 1) \<and> (\<forall>c\<in>set (allChildren w). okChild g c)"

text \<open>The children that run a tool (not the version probes).\<close>

definition runsOf :: "child list \<Rightarrow> child list" where
  "runsOf cs = filter (\<lambda>c. case c of Run _ _ _ \<Rightarrow> True | Probe _ _ _ \<Rightarrow> False) cs"

text \<open>What \<open>parseArgs\<close> returns for \<open>all --fix\<close>, and the table entry of the type checker.\<close>

definition defaultGlobals :: globals where
  "defaultGlobals = \<lparr>SOURCE_DIR = ''src'', PROJECT_NAME = ''Complete Quality Suite''\<rparr>"

definition fixAllOptions :: options where
  "fixAllOptions = \<lparr>tool = ''all'', fixMode = True, verbose = False, quiet = False,
     parallel = False, sourceDir = None, projectName = None\<rparr>"

definition typeCheckTool :: tool where
  "typeCheckTool = \<lparr>command = ''npx'', args = [''tsc'', ''--noEmit''], fixArgs = None,
     description = ''TypeScript type checking'', category = ''type-checking'', order = 4\<rparr>"

text \<open>The tool a child was spawned for, and the tools for which anything was spawned.\<close>

definition childTool :: "child \<Rightarrow> string" where
  "childTool c = (case c of Probe name _ _ \<Rightarrow> name | Run name _ _ \<Rightarrow> name)"

definition toolsSeen :: "world \<Rightarrow> string set" where
  "toolsSeen w = childTool ` set (allChildren w)"

section \<open>Properties of the maintainability scorer\<close>

subsection \<open>The loop as two sums\<close>

lemma scoreLoop_sums:
  "scoreLoop xs (ts, tw) =
     (ts + sum_list (map contribution xs), tw + sum_list (map effectiveWeight xs))"
  by (induction xs arbitrary: ts tw) (simp_all add: contribution_def effectiveWeight_def)

lemma weight_pos: "0 < weight r"
  by (simp add: weight_def)

lemma effectiveWeight_nonneg: "0 \<le> effectiveWeight r"
  using weight_pos [of r] by (simp add: effectiveWeight_def)

lemma calculate_sums:
  "calculateMaintainabilityScore xs =
     (if 0 < sum_list (map effectiveWeight xs)
      then sum_list (map contribution xs) / sum_list (map effectiveWeight xs) else 0)"
  by (cases xs) (simp_all add: calculateMaintainabilityScore_def scoreLoop_sums)

lemma complexityPenalty_nonneg: "0 \<le> complexityPenalty r"
  by (simp add: complexityPenalty_def)
lemma sizePenalty_nonneg: "0 \<le> sizePenalty r"
  by (simp add: sizePenalty_def)
lemma functionPenalty_nonneg: "0 \<le> functionPenalty r"
  by (simp add: functionPenalty_def)

lemma floor_twice: "0 \<le> p \<Longrightarrow> max 0 (max 0 x - p) = max (0::real) (x - p)"
  by (simp add: max_def)

lemma fileScore_cases:
  "fileScore r =
     (if penaltyApplies r
      then max 0 (maintainability r - complexityPenalty r - sizePenalty r - functionPenalty r)
      else maintainability r)"
proof -
  let ?m = "maintainability r"
  define s1 where "s1 = (if complexity r > maxCyclomatic then max 0 (?m - complexityPenalty r) else ?m)"
  define s2 where "s2 = (if lines r > maxLines then max 0 (s1 - sizePenalty r) else s1)"
  define s3 where "s3 = (if length (complexFunctions r) > 0 then max 0 (s2 - functionPenalty r) else s2)"
  have fs: "fileScore r = s3"
    unfolding fileScore_def Let_def s3_def s2_def s1_def
    by (simp add: complexityPenalty_def sizePenalty_def functionPenalty_def mult.commute)
  have c0: "\<not> complexity r > maxCyclomatic \<Longrightarrow> complexityPenalty r = 0"
    by (simp add: complexityPenalty_def)
  have l0: "\<not> lines r > maxLines \<Longrightarrow> sizePenalty r = 0"
    by (simp add: sizePenalty_def)
  have f0: "\<not> length (complexFunctions r) > 0 \<Longrightarrow> functionPenalty r = 0"
    by (simp add: functionPenalty_def)
  show ?thesis
  proof (cases "complexity r > maxCyclomatic")
    case c: True
    show ?thesis
    proof (cases "lines r > maxLines")
      case l: True
      show ?thesis
      proof (cases "length (complexFunctions r) > 0")
        case True
        with c l show ?thesis
          unfolding fs s3_def s2_def s1_def penaltyApplies_def
          by (simp add: floor_twice sizePenalty_nonneg functionPenalty_nonneg del: length_greater_0_conv)
      next
        case False
        with c l f0 show ?thesis
          unfolding fs s3_def s2_def s1_def penaltyApplies_def
          by (simp add: floor_twice sizePenalty_nonneg del: length_greater_0_conv)
      qed
    next
      case l: False
      show ?thesis
      proof (cases "length (complexFunctions r) > 0")
        case True
        with c l l0 show ?thesis
          unfolding fs s3_def s2_def s1_def penaltyApplies_def
          by (simp add: floor_twice functionPenalty_nonneg del: length_greater_0_conv)
      next
        case False
        with c l l0 f0 show ?thesis
          unfolding fs s3_def s2_def s1_def penaltyApplies_def
          by (simp del: length_greater_0_conv)
      qed
    qed
  next
    case c: False
    show ?thesis
    proof (cases "lines r > maxLines")
      case l: True
      show ?thesis
      proof (cases "length (complexFunctions r) > 0")
        case True
        with c l c0 show ?thesis
          unfolding fs s3_def s2_def s1_def penaltyApplies_def
          by (simp add: floor_twice functionPenalty_nonneg del: length_greater_0_conv)
      next
        case False
        with c l c0 f0 show ?thesis
          unfolding fs s3_def s2_def s1_def penaltyApplies_def
          by (simp del: length_greater_0_conv)
      qed
    next
      case l: False
      show ?thesis
      proof (cases "length (complexFunctions r) > 0")
        case True
        with c l c0 l0 show ?thesis
          unfolding fs s3_def s2_def s1_def penaltyApplies_def
          by (simp del: length_greater_0_conv)
      next
        case False
        with c l show ?thesis
          unfolding fs s3_def s2_def s1_def penaltyApplies_def
          by (simp del: length_greater_0_conv)
      qed
    qed
  qed
qed

subsection \<open>Per-file score\<close>

text \<open>
  A file whose raw sub-score is negative and to which no penalty applies keeps its negative
  score: the floor is only taken inside the three penalty branches.
\<close>

theorem negative_raw_not_floored:
  "\<not> hasError negativeFile \<and> fileScore negativeFile = - 5 \<and> specPenalizedScore negativeFile = 0"
  by (simp add: negativeFile_def hasError_def fileScore_def specPenalizedScore_def
      complexityPenalty_def sizePenalty_def functionPenalty_def complexFunctions_def
      maxCyclomatic_def maxLines_def)

text \<open>
  Claim C4, amended. The effective score of a file is its raw sub-score when no penalty
  applies, and otherwise the raw sub-score minus \<open>2 \<times> (complexity - 10)\<close> (when complexity
  exceeds 10), minus \<open>(lines - 300) / 50\<close> (when the line count exceeds 300), minus
  \<open>3 \<times>\<close> the number of functions of complexity above 10, floored at zero. With a
  non-negative raw sub-score it is that floored difference in every case, and never negative.
\<close>

theorem fileScore_penalties:
  "fileScore r =
     (if penaltyApplies r then specPenalizedScore r else maintainability r) \<and>
   (0 \<le> maintainability r \<longrightarrow> fileScore r = specPenalizedScore r \<and> 0 \<le> fileScore r)"
proof -
  have a: "fileScore r = (if penaltyApplies r then specPenalizedScore r else maintainability r)"
    by (simp add: fileScore_cases specPenalizedScore_def)
  have b: "\<not> penaltyApplies r \<Longrightarrow> specPenalizedScore r = max 0 (maintainability r)"
    by (simp add: penaltyApplies_def specPenalizedScore_def complexityPenalty_def
        sizePenalty_def functionPenalty_def)
  have c: "0 \<le> specPenalizedScore r"
    by (simp add: specPenalizedScore_def)
  show ?thesis using a b c by (cases "penaltyApplies r") auto
qed

theorem fileScore_penalties_witness:
  "0 \<le> maintainability tangledFile \<and> penaltyApplies tangledFile \<and>
   fileScore tangledFile = specPenalizedScore tangledFile \<and> fileScore tangledFile = 45"
proof -
  have h: "0 \<le> maintainability tangledFile" by (simp add: tangledFile_def)
  have p: "penaltyApplies tangledFile"
    by (simp add: tangledFile_def penaltyApplies_def maxCyclomatic_def)
  have v: "specPenalizedScore tangledFile = 45"
    by (simp add: tangledFile_def specPenalizedScore_def complexityPenalty_def sizePenalty_def
        functionPenalty_def complexFunctions_def maxCyclomatic_def maxLines_def)
  from fileScore_penalties [of tangledFile] h have "fileScore tangledFile = specPenalizedScore tangledFile"
    by simp
  with h p v show ?thesis by simp
qed

subsection \<open>Weighted mean\<close>






subsection \<open>Monotonicity in the complexity of one file\<close>

lemma sum_list_map_update_le:
  fixes f :: "'a \<Rightarrow> real"
  shows "j < length xs \<Longrightarrow> f a \<le> f b \<Longrightarrow>
    sum_list (map f (xs[j := a])) \<le> sum_list (map f (xs[j := b]))"
  by (induction xs arbitrary: j) (auto split: nat.splits)

lemma sum_list_map_update_eq:
  fixes f :: "'a \<Rightarrow> real"
  shows "j < length xs \<Longrightarrow> f a = f b \<Longrightarrow>
    sum_list (map f (xs[j := a])) = sum_list (map f (xs[j := b]))"
  by (induction xs arbitrary: j) (auto split: nat.splits)


lemma fileScore_crossing:
  assumes "c \<le> maxCyclomatic" and "maxCyclomatic < c'" and "0 \<le> maintainability r"
  shows "fileScore (r\<lparr>complexity := c'\<rparr>) \<le> fileScore (r\<lparr>complexity := c\<rparr>)"
proof -
  have "0 \<le> complexityPenalty (r\<lparr>complexity := c'\<rparr>)"
    by (rule complexityPenalty_nonneg)
  moreover have "complexityPenalty (r\<lparr>complexity := c\<rparr>) = 0"
    using assms(1) by (simp add: complexityPenalty_def)
  moreover have "sizePenalty (r\<lparr>complexity := c'\<rparr>) = sizePenalty (r\<lparr>complexity := c\<rparr>)"
    by (simp add: sizePenalty_def)
  moreover have "functionPenalty (r\<lparr>complexity := c'\<rparr>) = functionPenalty (r\<lparr>complexity := c\<rparr>)"
    by (simp add: functionPenalty_def complexFunctions_def)
  moreover have "0 \<le> sizePenalty (r\<lparr>complexity := c\<rparr>)" "0 \<le> functionPenalty (r\<lparr>complexity := c\<rparr>)"
    by (rule sizePenalty_nonneg, rule functionPenalty_nonneg)
  moreover have "penaltyApplies (r\<lparr>complexity := c'\<rparr>)"
    using assms(2) by (simp add: penaltyApplies_def)
  ultimately show ?thesis
    using assms(3) by (simp add: fileScore_cases max_def)
qed

text \<open>Replacing one entry by one of equal weight and error flag but a lower score.\<close>

lemma score_update_mono:
  assumes "j < length xs" and e: "hasError a = hasError b" and w: "weight a = weight b"
    and f: "fileScore a \<le> fileScore b"
  shows "calculateMaintainabilityScore (xs[j := a]) \<le> calculateMaintainabilityScore (xs[j := b])"
proof -
  have ew: "effectiveWeight a = effectiveWeight b"
    using e w by (simp add: effectiveWeight_def)
  have "fileScore a * weight a \<le> fileScore b * weight b"
    using f w weight_pos [of b] by simp
  then have c: "contribution a \<le> contribution b"
    using e by (simp add: contribution_def)
  have W: "sum_list (map effectiveWeight (xs[j := a])) = sum_list (map effectiveWeight (xs[j := b]))"
    using sum_list_map_update_eq [OF assms(1) ew] .
  have C: "sum_list (map contribution (xs[j := a])) \<le> sum_list (map contribution (xs[j := b]))"
    using sum_list_map_update_le [OF assms(1) c] .
  show ?thesis
    unfolding calculate_sums W using C by (simp add: divide_right_mono)
qed

text \<open>
  A step from at or below the threshold to above it lowers the score only when the raw
  sub-score is not negative: below the threshold a negative raw sub-score is kept, above it
  the floor lifts it to zero.
\<close>

lemma score_antimono_crossing:
  assumes "j < length xs" and "c \<le> maxCyclomatic" and "maxCyclomatic < c'"
    and "0 \<le> maintainability (xs ! j)"
  shows "calculateMaintainabilityScore (xs[j := (xs ! j)\<lparr>complexity := c'\<rparr>])
       \<le> calculateMaintainabilityScore (xs[j := (xs ! j)\<lparr>complexity := c\<rparr>])"
proof (rule score_update_mono [OF assms(1)])
  show "hasError ((xs ! j)\<lparr>complexity := c'\<rparr>) = hasError ((xs ! j)\<lparr>complexity := c\<rparr>)"
    by (simp add: hasError_def)
  show "weight ((xs ! j)\<lparr>complexity := c'\<rparr>) = weight ((xs ! j)\<lparr>complexity := c\<rparr>)"
    by (simp add: weight_def)
  show "fileScore ((xs ! j)\<lparr>complexity := c'\<rparr>) \<le> fileScore ((xs ! j)\<lparr>complexity := c\<rparr>)"
    using assms(2-4) by (rule fileScore_crossing)
qed



subsection \<open>Range of the overall score\<close>

lemma fileScore_bounds:
  assumes "0 \<le> maintainability r" and "maintainability r \<le> 100"
  shows "0 \<le> fileScore r \<and> fileScore r \<le> 100"
  using assms complexityPenalty_nonneg[of r] sizePenalty_nonneg[of r] functionPenalty_nonneg[of r]
  by (simp add: fileScore_cases max_def)

lemma contribution_bounds:
  assumes "\<forall>r\<in>set xs. \<not> hasError r \<longrightarrow> 0 \<le> maintainability r \<and> maintainability r \<le> 100"
  shows "0 \<le> sum_list (map contribution xs) \<and>
         sum_list (map contribution xs) \<le> 100 * sum_list (map effectiveWeight xs)"
  using assms
proof (induction xs)
  case Nil
  then show ?case by simp
next
  case (Cons r rs)
  then have IH: "0 \<le> sum_list (map contribution rs)"
     "sum_list (map contribution rs) \<le> 100 * sum_list (map effectiveWeight rs)"
    by simp_all
  have "0 \<le> contribution r \<and> contribution r \<le> 100 * effectiveWeight r"
  proof (cases "hasError r")
    case True
    then show ?thesis by (simp add: contribution_def effectiveWeight_def)
  next
    case False
    with Cons.prems have "0 \<le> maintainability r" "maintainability r \<le> 100" by simp_all
    from fileScore_bounds [OF this] weight_pos [of r] False show ?thesis
      by (simp add: contribution_def effectiveWeight_def)
  qed
  with IH show ?case by simp
qed

text \<open>
  The raw sub-score is passed through when no penalty applies, and nothing caps it: a short
  file with the analyzer's top value 171 scores 171.
\<close>

theorem raw_above_100_passes_through:
  "calculateMaintainabilityScore [plainFile] = 171 \<and>
   \<not> calculateMaintainabilityScore [plainFile] \<le> 100"
  by (simp add: calculateMaintainabilityScore_def plainFile_def hasError_def fileScore_def
      weight_def complexFunctions_def maxCyclomatic_def maxLines_def)

text \<open>
  Claim C9, amended. If the raw sub-score of every entry without a parse error lies between
  0 and 100, the overall score lies between 0 and 100.
\<close>

theorem score_in_range:
  assumes "\<forall>r\<in>set xs. \<not> hasError r \<longrightarrow> 0 \<le> maintainability r \<and> maintainability r \<le> 100"
  shows "0 \<le> calculateMaintainabilityScore xs \<and> calculateMaintainabilityScore xs \<le> 100"
proof -
  from contribution_bounds [OF assms]
  have lo: "0 \<le> sum_list (map contribution xs)"
    and hi: "sum_list (map contribution xs) \<le> 100 * sum_list (map effectiveWeight xs)" by simp_all
  show ?thesis
  proof (cases "0 < sum_list (map effectiveWeight xs)")
    case True
    then show ?thesis using lo hi by (simp add: calculate_sums pos_divide_le_eq)
  next
    case False
    then show ?thesis by (simp add: calculate_sums)
  qed
qed

theorem score_in_range_witness:
  "\<not> hasError tangledFile \<and> 0 \<le> maintainability tangledFile \<and>
   maintainability tangledFile \<le> 100 \<and> hasError brokenFile \<and>
   0 \<le> calculateMaintainabilityScore [tangledFile, brokenFile] \<and>
   calculateMaintainabilityScore [tangledFile, brokenFile] \<le> 100"
proof -
  have h: "\<forall>r\<in>set [tangledFile, brokenFile].
      \<not> hasError r \<longrightarrow> 0 \<le> maintainability r \<and> maintainability r \<le> 100"
    by (simp add: tangledFile_def brokenFile_def)
  have e: "\<not> hasError tangledFile" "hasError brokenFile"
    by (simp_all add: tangledFile_def brokenFile_def hasError_def)
  have m: "0 \<le> maintainability tangledFile" "maintainability tangledFile \<le> 100"
    by (simp_all add: tangledFile_def)
  from score_in_range [OF h] e m show ?thesis by simp
qed

subsection \<open>Entries with a parse error\<close>

lemma sums_filter:
  "sum_list (map contribution (filter (\<lambda>r. \<not> hasError r) xs)) = sum_list (map contribution xs) \<and>
   sum_list (map effectiveWeight (filter (\<lambda>r. \<not> hasError r) xs)) = sum_list (map effectiveWeight xs)"
  by (induction xs) (simp_all add: contribution_def effectiveWeight_def)

text \<open>
  Claim C10. The overall score of a list equals the overall score of its entries without a
  parse error; a list whose entries all carry a parse error scores 0.
\<close>

theorem errors_ignored:
  "calculateMaintainabilityScore xs =
     calculateMaintainabilityScore (filter (\<lambda>r. \<not> hasError r) xs) \<and>
   ((\<forall>r\<in>set xs. hasError r) \<longrightarrow> calculateMaintainabilityScore xs = 0)"
proof -
  have a: "calculateMaintainabilityScore xs =
     calculateMaintainabilityScore (filter (\<lambda>r. \<not> hasError r) xs)"
    by (simp add: calculate_sums sums_filter)
  have "filter (\<lambda>r. \<not> hasError r) xs = []" if "\<forall>r\<in>set xs. hasError r"
    using that by (induction xs) simp_all
  then have "calculateMaintainabilityScore xs = 0" if "\<forall>r\<in>set xs. hasError r"
    using that a by (simp add: calculateMaintainabilityScore_def)
  with a show ?thesis by blast
qed

theorem errors_ignored_witness:
  "hasError brokenFile \<and> calculateMaintainabilityScore [brokenFile, brokenFile] = 0"
proof -
  have h: "\<forall>r\<in>set [brokenFile, brokenFile]. hasError r"
    by (simp add: brokenFile_def hasError_def)
  from errors_ignored [of "[brokenFile, brokenFile]"] h
  have "calculateMaintainabilityScore [brokenFile, brokenFile] = 0" by blast
  with h show ?thesis by simp
qed

subsection \<open>A run that finds no files\<close>

text \<open>
  With no file to analyze, \<open>main\<close> prints a warning and returns: no report is built, and
  the recommendations for an empty result list would hold the low-score entry only.
\<close>

theorem empty_directory_run:
  "maintainabilityMain noFilesInput =
     \<lparr>s_console = [Banner ''Levero Frontend'' ''src'', Text ''No files found to analyze''],
      s_report = None, s_written = [], s_exit = 0\<rparr> \<and>
   generateRecommendations [] 0 =
     [\<lparr>r_type = ''critical'',
       r_message = ''Overall maintainability score is below acceptable threshold'',
       r_action = ''Consider major refactoring to improve code structure and reduce complexity''\<rparr>]"
  by (simp add: maintainabilityMain_def noFilesInput_def generateRecommendations_def
      acceptable_def)

text \<open>
  Claim C3, amended. When the analyzer is available and no eligible file is found, the
  scorer prints \<open>No files found to analyze\<close> and ends with exit code 0 without building or
  saving a report; \<open>calculateMaintainabilityScore\<close> of the empty list is 0, with no division.
\<close>

theorem no_files_no_report:
  assumes "\<not> helpRequested inp" and "analyzerAvailable inp" and "filesFound inp = []"
  shows "s_report (maintainabilityMain inp) = None \<and>
         s_written (maintainabilityMain inp) = [] \<and>
         s_exit (maintainabilityMain inp) = 0 \<and>
         s_console (maintainabilityMain inp) =
           (if s_quiet (scorerOpts inp) then [] else [Banner (cfgProjectName inp) (cfgSourceDir inp)])
           @ [Text ''No files found to analyze''] \<and>
         calculateMaintainabilityScore [] = 0"
  using assms by (simp add: maintainabilityMain_def Let_def calculateMaintainabilityScore_def)

theorem no_files_no_report_witness:
  "\<not> helpRequested noFilesInput \<and> analyzerAvailable noFilesInput \<and>
   filesFound noFilesInput = [] \<and>
   s_report (maintainabilityMain noFilesInput) = None \<and>
   s_exit (maintainabilityMain noFilesInput) = 0"
proof -
  have a: "\<not> helpRequested noFilesInput" by (simp add: noFilesInput_def)
  have b: "analyzerAvailable noFilesInput" by (simp add: noFilesInput_def)
  have c: "filesFound noFilesInput = []" by (simp add: noFilesInput_def)
  from no_files_no_report [OF a b c] a b c show ?thesis by blast
qed

section \<open>Properties of the quality checks runner\<close>

subsection \<open>Evaluating concrete runs\<close>

lemmas engine_defs = main_def parseArgs_def resolve_def getProperty_def toolGroups_def tools_def
  objectPrototypeKeys_def ensureReportsDirectory_def say_def finish_def printSummary_def
  runTool_def checkToolAvailability_def chooseArgs_def exitedZero_def replaceSrc_def
  spawnCount_def toolGroup_def printCategoryHeader_def rule60_def toUpperCase_def andThen_def
  runToolsParallel_def runFixAll_def initialWorld_def invoked_def allChildren_def
  childrenOf_def printedOf_def successOf_def inheritedLength_def

lemma showNat_small:
  "showNat (Suc 0) = ''1''" "showNat 1 = ''1''" "showNat 5 = ''5''" "showNat 9 = ''9''"
  "showNat 10 = ''10''"
  by code_simp+

subsection \<open>Shared facts about lookups, \<open>runTool\<close> and the end of a run\<close>

lemma getProperty_Own: "map_of obj key = Some v \<Longrightarrow> getProperty obj key = Own v"
  by (simp add: getProperty_def)

lemma getProperty_OwnD: "getProperty obj key = Own v \<Longrightarrow> map_of obj key = Some v"
  by (auto simp: getProperty_def split: option.splits if_splits)

lemma worldOf_andThen_Threw [simp]: "worldOf (Threw w e) = w"
  and worldOf_Returned [simp]: "worldOf (Returned w x) = w"
  by (simp_all add: worldOf_def)

lemma batches_finish: "batches (fst (finish m opts)) = batches (worldOf m)"
  by (cases m) (simp_all add: finish_def say_def split: prod.splits)

lemma resolve_all:
  "resolve ''all'' = Names [''prettier'', ''import-sorting'', ''linting'', ''type-check'',
     ''security-scanning'', ''vulnerability-checking'', ''dead-code'', ''duplication'',
     ''complexity'', ''maintainability'', ''dependency-check'']"
  by (simp add: resolve_def getProperty_def toolGroups_def)

text \<open>Whatever \<open>runTool\<close> spawns is a version probe or the command of the tool it was called for.\<close>

lemma runTool_children:
  assumes "runTool sp g opts name n = Finished r" and "c \<in> set (children r)"
  shows "(\<exists>p a. c = Probe name p a) \<or>
         (\<exists>t. map_of tools name = Some t \<and>
              c = Run name (command t) (map (replaceSrc (SOURCE_DIR g)) (chooseArgs opts t)))"
proof (cases "getProperty tools name")
  case (Own t)
  then have m: "map_of tools name = Some t" by (rule getProperty_OwnD)
  from assms Own show ?thesis
    unfolding runTool_def checkToolAvailability_def Let_def
    by (auto simp: m split: if_splits list.splits childOutcome.splits sum.splits)
next
  case Inherited
  with assms show ?thesis
    by (simp add: runTool_def checkToolAvailability_def)
next
  case Absent
  with assms show ?thesis by (auto simp: runTool_def)
qed

subsection \<open>Exit code\<close>

lemma all_kept_iff: "length (filter P xs) = length xs \<longleftrightarrow> (\<forall>x\<in>set xs. P x)"
proof (induction xs)
  case Nil
  then show ?case by simp
next
  case (Cons x xs)
  have le: "length (filter P xs) \<le> length xs" by simp
  show ?case
  proof (cases "P x")
    case True
    with Cons show ?thesis by simp
  next
    case False
    from le have "length (filter P xs) \<noteq> Suc (length xs)" by arith
    with False show ?thesis by simp
  qed
qed

lemma failed_count_zero:
  "length results - length (filter snd results) = 0 \<longleftrightarrow> (\<forall>r\<in>set results. snd r)"
proof -
  have "length (filter snd results) \<le> length results" by simp
  then have "length results - length (filter snd results) = 0
      \<longleftrightarrow> length (filter snd results) = length results" by arith
  then show ?thesis by (simp only: all_kept_iff)
qed

lemma exit_code_of_results:
  "snd (finish (Returned w results) opts) = (if \<forall>r\<in>set results. snd r then 0 else 1)"
  using failed_count_zero [of results]
  by (simp add: finish_def printSummary_def Let_def split: prod.splits)

subsection \<open>The suite \<open>all\<close> without \<open>--fix\<close>\<close>

text \<open>The runners spawn children for the tools they are given, and for no other.\<close>

lemma runTool_childTool:
  assumes "runTool sp g opts name n = Finished r" and "c \<in> set (children r)"
  shows "childTool c = name"
  using runTool_children [OF assms] by (auto simp: childTool_def)

lemma toolsSeen_step:
  "toolsSeen (w\<lparr>batches := batches w @ [ [cs] ], console := k\<rparr>) = toolsSeen w \<union> childTool ` set cs"
  by (simp add: toolsSeen_def allChildren_def image_Un)

lemma toolsSeen_say [simp]: "toolsSeen (say ls w) = toolsSeen w"
  by (simp add: toolsSeen_def say_def allChildren_def)

lemma toolsSeen_ensure [simp]: "toolsSeen (ensureReportsDirectory w) = toolsSeen w"
  by (simp add: toolsSeen_def ensureReportsDirectory_def allChildren_def)

lemma toolsSeen_finish: "toolsSeen (fst (finish m opts)) = toolsSeen (worldOf m)"
  by (simp add: toolsSeen_def allChildren_def batches_finish)

lemma sequential_tools:
  "toolsSeen (worldOf (runToolsSequential sp g opts names w)) \<subseteq> toolsSeen w \<union> set names"
proof (induction names arbitrary: w)
  case Nil
  then show ?case by simp
next
  case (Cons name names)
  show ?case
  proof (cases "runTool sp g opts name (spawnCount w)")
    case (Rejected e)
    then show ?thesis by auto
  next
    case (Finished r)
    let ?w = "w\<lparr>batches := batches w @ [ [children r] ], console := console w @ printed r\<rparr>"
    have "childTool ` set (children r) \<subseteq> {name}"
      using runTool_childTool [OF Finished] by auto
    then have "toolsSeen ?w \<subseteq> toolsSeen w \<union> {name}"
      unfolding toolsSeen_step by blast
    with Cons.IH [of ?w]
    have "toolsSeen (worldOf (runToolsSequential sp g opts names ?w))
            \<subseteq> toolsSeen w \<union> set (name # names)"
      by auto
    then show ?thesis using Finished by (simp add: worldOf_def split: outcome.splits)
  qed
qed

lemma launchAll_tools:
  "(name, r) \<in> set (launchAll sp g opts names n) \<Longrightarrow> c \<in> set (childrenOf r)
     \<Longrightarrow> childTool c \<in> set names"
proof (induction names arbitrary: n)
  case Nil
  then show ?case by simp
next
  case (Cons a names)
  show ?case
  proof (cases "(name, r) = (a, runTool sp g opts a n)")
    case True
    with Cons.prems(2) have "childTool c = a"
      by (cases "runTool sp g opts a n") (auto simp: childrenOf_def dest: runTool_childTool)
    then show ?thesis by simp
  next
    case False
    with Cons.prems(1) obtain m where "(name, r) \<in> set (launchAll sp g opts names m)"
      by (auto simp: Let_def)
    from Cons.IH [OF this Cons.prems(2)] show ?thesis by simp
  qed
qed

lemma parallel_tools:
  "toolsSeen (worldOf (runToolsParallel sp g opts names w)) \<subseteq> toolsSeen w \<union> set names"
proof -
  let ?calls = "launchAll sp g opts names (spawnCount w)"
  let ?w = "w\<lparr>batches := batches w @ [map (\<lambda>(_, r). childrenOf r) ?calls],
              console := console w @ concat (map (\<lambda>(_, r). printedOf r) ?calls)\<rparr>"
  have w: "worldOf (runToolsParallel sp g opts names w) = ?w"
    by (simp add: runToolsParallel_def Let_def split: option.splits)
  have "toolsSeen ?w \<subseteq> toolsSeen w \<union> set names"
    by (auto simp: toolsSeen_def allChildren_def dest: launchAll_tools)
  then show ?thesis by (simp only: w)
qed

lemma runCategories_tools:
  "toolsSeen (worldOf (runCategories sp g opts toolsToRun cats w results))
     \<subseteq> toolsSeen w \<union> (\<Union>cat\<in>set cats. set (toolGroup cat))"
proof (induction cats arbitrary: w results)
  case Nil
  then show ?case by simp
next
  case (Cons cat cats)
  let ?ct = "filter (\<lambda>t. t \<in> set toolsToRun) (toolGroup cat)"
  show ?case
  proof (cases "length ?ct = 0")
    case True
    with Cons.IH [of w results] show ?thesis by (auto simp: Let_def)
  next
    case False
    let ?w1 = "if \<not> quiet opts then say (printCategoryHeader cat ?ct) w else w"
    let ?m = "if parallel opts \<and> cat \<noteq> ''formatting''
              then runToolsParallel sp g opts ?ct ?w1
              else runToolsSequential sp g opts ?ct ?w1"
    have m: "toolsSeen (worldOf ?m) \<subseteq> toolsSeen w \<union> set (toolGroup cat)"
      using parallel_tools [of sp g opts ?ct ?w1] sequential_tools [of sp g opts ?ct ?w1]
      by (auto split: if_splits)
    have unfold: "runCategories sp g opts toolsToRun (cat # cats) w results =
        andThen ?m (\<lambda>w2 categoryResults.
           runCategories sp g opts toolsToRun cats w2 (results @ categoryResults))"
      using False by (simp add: Let_def)
    show ?thesis
    proof (cases ?m)
      case (Threw w2 e)
      with m show ?thesis unfolding unfold by (auto simp: andThen_def)
    next
      case (Returned w2 rs)
      with m have "toolsSeen w2 \<subseteq> toolsSeen w \<union> set (toolGroup cat)" by simp
      with Cons.IH [of w2 "results @ rs"] Returned show ?thesis
        unfolding unfold by (auto simp: andThen_def)
    qed
  qed
qed

lemma walked_groups:
  "''type-check'' \<notin> (\<Union>cat\<in>set [''formatting'', ''linting'', ''security'', ''analysis'']. set (toolGroup cat))"
  "''import-sorting'' \<notin> (\<Union>cat\<in>set [''formatting'', ''linting'', ''security'', ''analysis'']. set (toolGroup cat))"
  by (simp_all add: toolGroup_def toolGroups_def)

text \<open>
  In every environment and with every combination of \<open>--quiet\<close>, \<open>--verbose\<close> and
  \<open>--parallel\<close>, a run of \<open>all\<close> without \<open>--fix\<close> spawns nothing for
  \<open>type-check\<close> or \<open>import-sorting\<close>, not even the version probe.
\<close>

lemma all_never_runs_skipped_steps:
  assumes "parseArgs argv = (opts, g)" and "tool opts = ''all''" and "\<not> fixMode opts"
  shows "''type-check'' \<notin> toolsSeen (fst (main sp argv (initialWorld d))) \<and>
         ''import-sorting'' \<notin> toolsSeen (fst (main sp argv (initialWorld d)))"
proof -
  let ?w1 = "ensureReportsDirectory (initialWorld d)"
  let ?w2 = "if \<not> quiet opts then say [Header (PROJECT_NAME g) (SOURCE_DIR g)] ?w1 else ?w1"
  let ?cats = "[''formatting'', ''linting'', ''security'', ''analysis'']"
  let ?all = "[''prettier'', ''import-sorting'', ''linting'', ''type-check'',
     ''security-scanning'', ''vulnerability-checking'', ''dead-code'', ''duplication'',
     ''complexity'', ''maintainability'', ''dependency-check'']"
  have m: "main sp argv (initialWorld d) = finish (runCategories sp g opts ?all ?cats ?w2 []) opts"
    using assms by (simp add: main_def resolve_all Let_def)
  have "toolsSeen (initialWorld d) = {}"
    by (simp add: toolsSeen_def initialWorld_def allChildren_def)
  then have "toolsSeen ?w2 = {}" by simp
  with runCategories_tools [of sp g opts ?all ?cats ?w2 "[]"]
  have sub: "toolsSeen (fst (main sp argv (initialWorld d)))
          \<subseteq> (\<Union>cat\<in>set ?cats. set (toolGroup cat))"
    unfolding m toolsSeen_finish by simp
  show ?thesis using sub walked_groups by (meson subsetD)
qed

text \<open>
  Claim C1, evaluated where the code departs from it. \<open>all\<close> resolves to eleven tools, but
  the run walks the four groups \<open>formatting\<close>, \<open>linting\<close>, \<open>security\<close> and
  \<open>analysis\<close> only: \<open>import-sorting\<close> and \<open>type-check\<close> are never spawned. In an
  environment where only the type checker fails, \<open>all\<close> exits with 0 while \<open>type-check\<close>
  alone exits with 1.
\<close>

theorem all_skips_two_steps:
  "resolve ''all'' =
     Names [''prettier'', ''import-sorting'', ''linting'', ''type-check'', ''security-scanning'',
            ''vulnerability-checking'', ''dead-code'', ''duplication'', ''complexity'',
            ''maintainability'', ''dependency-check''] \<and>
   invoked (fst (main tscFails [''all''] (initialWorld False))) =
     [''prettier'', ''linting'', ''security-scanning'', ''vulnerability-checking'', ''dead-code'',
      ''duplication'', ''complexity'', ''maintainability'', ''dependency-check''] \<and>
   snd (main tscFails [''all''] (initialWorld False)) = 0 \<and>
   snd (main tscFails [''type-check''] (initialWorld False)) = 1"
  by (simp add: engine_defs tscFails_def showNat_small)

subsection \<open>Unknown identifiers\<close>

lemma map_of_absent: "key \<notin> fst ` set obj \<Longrightarrow> map_of obj key = None"
  by (simp add: map_of_eq_None_iff)

lemma resolve_unregistered:
  assumes "name \<notin> fst ` set tools" and "name \<notin> fst ` set toolGroups"
  shows "resolve name =
           (if name \<in> set objectPrototypeKeys then NotAnArray (inheritedLength name) else Unknown)"
  using assms by (simp add: resolve_def getProperty_def map_of_absent)

lemma parseArgs_tool: "name \<noteq> [] \<Longrightarrow> tool (fst (parseArgs (name # rest))) = name"
  by (simp add: parseArgs_def Let_def)

text \<open>
  The reports directory is ensured before the identifier is looked up, and the error message
  points to \<open>help\<close> instead of listing the identifiers.
\<close>

theorem unknown_creates_reports_dir:
  "reportsDir (initialWorld False) = False \<and>
   main allPass [''bogus''] (initialWorld False) =
     (\<lparr>batches = [],
       console = [Header ''Complete Quality Suite'' ''src'',
                  Line ''Unknown tool or group: bogus'',
                  Line ''Use \"help\" to see available options''],
       reportsDir = True\<rparr>, 1)"
  by (simp add: engine_defs)

text \<open>
  Claim C2, amended. For every first argument that is not empty, not a help flag, and
  neither a registered tool nor a group, the run exits with code 1 and spawns no child
  process; the reports directory exists afterwards. Unless the name is one that every object
  inherits, the output is the header (when not quiet), then
  \<open>Unknown tool or group: name\<close> and the hint to use \<open>help\<close>.
\<close>

theorem unknown_identifier_rejected:
  assumes "name \<notin> fst ` set tools" and "name \<notin> fst ` set toolGroups"
    and "name \<noteq> []" and "name \<noteq> ''help''" and "name \<noteq> ''--help''" and "name \<noteq> ''-h''"
  shows "snd (main sp (name # rest) (initialWorld d)) = 1 \<and>
         batches (fst (main sp (name # rest) (initialWorld d))) = [] \<and>
         reportsDir (fst (main sp (name # rest) (initialWorld d))) \<and>
         (name \<notin> set objectPrototypeKeys \<longrightarrow>
            console (fst (main sp (name # rest) (initialWorld d))) =
              (if quiet (fst (parseArgs (name # rest))) then []
               else [Header (PROJECT_NAME (snd (parseArgs (name # rest))))
                            (SOURCE_DIR (snd (parseArgs (name # rest))))])
              @ [Line (''Unknown tool or group: '' @ name),
                 Line ''Use \"help\" to see available options''])"
proof -
  obtain opts g where p: "parseArgs (name # rest) = (opts, g)" by (cases "parseArgs (name # rest)")
  have t: "tool opts = name" using parseArgs_tool [OF assms(3), of rest] p by simp
  have r: "resolve (tool opts) =
      (if name \<in> set objectPrototypeKeys then NotAnArray (inheritedLength name) else Unknown)"
    using resolve_unregistered [OF assms(1,2)] t by simp
  show ?thesis
  proof (cases "name \<in> set objectPrototypeKeys")
    case True
    then show ?thesis using assms(4-6) p t r
      by (simp add: main_def Let_def finish_def say_def ensureReportsDirectory_def
          initialWorld_def)
  next
    case False
    then show ?thesis using assms(4-6) p t r
      by (simp add: main_def Let_def say_def ensureReportsDirectory_def initialWorld_def)
  qed
qed

theorem unknown_identifier_rejected_witness:
  "''bogus'' \<notin> fst ` set tools \<and> ''bogus'' \<notin> fst ` set toolGroups \<and>
   ''bogus'' \<noteq> [] \<and> ''bogus'' \<noteq> ''help'' \<and> ''bogus'' \<noteq> ''--help'' \<and> ''bogus'' \<noteq> ''-h'' \<and>
   snd (main tscFails [''bogus'', ''--fix''] (initialWorld True)) = 1 \<and>
   batches (fst (main tscFails [''bogus'', ''--fix''] (initialWorld True))) = []"
proof -
  have a: "''bogus'' \<notin> fst ` set tools" by (simp add: tools_def)
  have b: "''bogus'' \<notin> fst ` set toolGroups" by (simp add: toolGroups_def)
  have c: "''bogus'' \<noteq> []" "''bogus'' \<noteq> ''help''" "''bogus'' \<noteq> ''--help''" "''bogus'' \<noteq> ''-h''"
    by simp_all
  note r = unknown_identifier_rejected [OF a b c, of tscFails "[''--fix'']" True]
  have e: "snd (main tscFails [''bogus'', ''--fix''] (initialWorld True)) = 1"
    by (rule r [THEN conjunct1])
  have f: "batches (fst (main tscFails [''bogus'', ''--fix''] (initialWorld True))) = []"
    by (rule r [THEN conjunct2, THEN conjunct1])
  show ?thesis using a b c e f by simp
qed

subsection \<open>Fix mode on the whole pipeline\<close>

lemma runTool_noFix_ok:
  assumes "runTool sp g opts name n = Finished r" and "\<not> fixMode opts"
  shows "\<forall>c\<in>set (children r). okChild g c"
proof
  fix c assume "c \<in> set (children r)"
  from runTool_children [OF assms(1) this] assms(2) show "okChild g c"
    by (auto simp: okChild_def checkOnly_def chooseArgs_def split: option.splits)
qed

lemma runTool_fixer_ok:
  assumes "runTool sp g opts name n = Finished r" and "name = ''prettier'' \<or> name = ''eslint''"
  shows "\<forall>c\<in>set (children r). okChild g c"
proof
  fix c assume "c \<in> set (children r)"
  from runTool_children [OF assms(1) this] assms(2) show "okChild g c"
    by (auto simp: okChild_def)
qed

lemma phased_say [simp]: "phased g (say ls w) = phased g w"
  by (simp add: phased_def say_def allChildren_def)

lemma phased_step:
  assumes "phased g w" and "\<forall>c\<in>set cs. okChild g c"
  shows "phased g (w\<lparr>batches := batches w @ [ [cs] ], console := k\<rparr>)"
  using assms by (auto simp: phased_def allChildren_def)

lemma sequential_phased:
  assumes "phased g w"
    and "\<And>name n r. name \<in> set names \<Longrightarrow> runTool sp g opts name n = Finished r
           \<Longrightarrow> \<forall>c\<in>set (children r). okChild g c"
  shows "phased g (worldOf (runToolsSequential sp g opts names w))"
  using assms
proof (induction names arbitrary: w)
  case Nil
  then show ?case by (simp add: worldOf_def)
next
  case (Cons name names)
  show ?case
  proof (cases "runTool sp g opts name (spawnCount w)")
    case (Rejected e)
    with Cons.prems(1) show ?thesis by (simp add: worldOf_def)
  next
    case (Finished r)
    let ?w = "w\<lparr>batches := batches w @ [ [children r] ], console := console w @ printed r\<rparr>"
    have ok: "\<forall>c\<in>set (children r). okChild g c"
      using Cons.prems(2) [of name "spawnCount w" r] Finished by simp
    have "phased g ?w" using phased_step [OF Cons.prems(1) ok] .
    have "phased g (worldOf (runToolsSequential sp g opts names ?w))"
    proof (rule Cons.IH)
      show "phased g ?w" by fact
    next
      fix name' n r'
      assume "name' \<in> set names" and "runTool sp g opts name' n = Finished r'"
      then show "\<forall>c\<in>set (children r'). okChild g c"
        using Cons.prems(2) [of name' n r'] by simp
    qed
    then show ?thesis using Finished
      by (simp add: worldOf_def split: outcome.splits)
  qed
qed

lemma noFix_phased:
  assumes "phased g w"
  shows "phased g (worldOf (runCategoriesNoFix sp g opts cats w results))"
  using assms
proof (induction cats arbitrary: w results)
  case Nil
  then show ?case by simp
next
  case (Cons cat cats)
  let ?w1 = "if \<not> quiet opts then say (printCategoryHeader cat (toolGroup cat)) w else w"
  let ?m = "runToolsSequential sp g (opts\<lparr>fixMode := False\<rparr>) (toolGroup cat) ?w1"
  have p1: "phased g ?w1" using Cons.prems by simp
  have pm: "phased g (worldOf ?m)"
    by (rule sequential_phased [OF p1]) (rule runTool_noFix_ok, assumption, simp)
  show ?case
  proof (cases ?m)
    case (Returned w2 rs)
    with pm have "phased g w2" by simp
    from Cons.IH [OF this] Returned show ?thesis
      by (simp add: andThen_def Let_def)
  next
    case (Threw w2 e)
    with pm show ?thesis by (simp add: andThen_def Let_def)
  qed
qed

lemma toolGroup_formatting: "toolGroup ''formatting'' = [''prettier'']"
  by (simp add: toolGroup_def toolGroups_def)

lemma runFixAll_phased:
  assumes "phased g w"
  shows "phased g (worldOf (runFixAll sp g opts w))"
proof -
  let ?w1 = "if \<not> quiet opts
             then say [Line ''Running auto-fix in sequence to avoid conflicts...''] w else w"
  let ?w2 = "if \<not> quiet opts
             then say (printCategoryHeader ''formatting'' (toolGroup ''formatting'')) ?w1 else ?w1"
  let ?m1 = "runToolsSequential sp g opts (toolGroup ''formatting'') ?w2"
  have p2: "phased g ?w2" using assms by simp
  have pm1: "phased g (worldOf ?m1)"
    by (rule sequential_phased [OF p2]) (rule runTool_fixer_ok, assumption,
        simp add: toolGroup_formatting)
  show ?thesis
  proof (cases ?m1)
    case (Threw w3 e)
    with pm1 show ?thesis by (simp only: runFixAll_def Let_def andThen_def outcome.case worldOf_andThen_Threw)
  next
    case m1: (Returned w3 formattingResults)
    with pm1 have p3: "phased g w3" by simp
    let ?w4 = "if \<not> quiet opts
               then say (printCategoryHeader ''linting'' (toolGroup ''linting'')) w3 else w3"
    let ?m2 = "runToolsSequential sp g (opts\<lparr>fixMode := True\<rparr>) [''eslint''] ?w4"
    have p4: "phased g ?w4" using p3 by simp
    have pm2: "phased g (worldOf ?m2)"
      by (rule sequential_phased [OF p4]) (rule runTool_fixer_ok, assumption, simp)
    show ?thesis
    proof (cases ?m2)
      case (Threw w5 e)
      with pm2 show ?thesis
        by (simp only: runFixAll_def Let_def m1 andThen_def outcome.case worldOf_andThen_Threw)
    next
      case m2: (Returned w5 lintingResults)
      with pm2 have p5: "phased g w5" by simp
      show ?thesis
      proof (cases "runTool sp g (opts\<lparr>fixMode := False\<rparr>) ''type-check'' (spawnCount w5)")
        case (Rejected e)
        with p5 show ?thesis
          by (simp only: runFixAll_def Let_def m1 m2 andThen_def outcome.case toolResult.case
              worldOf_andThen_Threw)
      next
        case (Finished r)
        have ok: "\<forall>c\<in>set (children r). okChild g c"
          by (rule runTool_noFix_ok [OF Finished]) simp
        have "phased g (w5\<lparr>batches := batches w5 @ [ [children r] ],
                            console := console w5 @ printed r\<rparr>)"
          using phased_step [OF p5 ok] .
        from noFix_phased [OF this] show ?thesis
          by (simp only: runFixAll_def Let_def m1 m2 Finished andThen_def outcome.case
              toolResult.case)
      qed
    qed
  qed
qed

lemma phased_finish: "phased g (fst (finish m opts)) = phased g (worldOf m)"
  by (simp add: phased_def allChildren_def batches_finish)

lemma phased_initial: "phased g (initialWorld d)"
  by (simp add: phased_def initialWorld_def allChildren_def)

lemma phased_ensure [simp]: "phased g (ensureReportsDirectory w) = phased g w"
  by (simp add: phased_def ensureReportsDirectory_def allChildren_def)

lemma main_fix_all:
  assumes "parseArgs argv = (opts, g)" and "tool opts = ''all''" and "fixMode opts"
  shows "phased g (fst (main sp argv (initialWorld d)))"
proof -
  let ?w1 = "ensureReportsDirectory (initialWorld d)"
  let ?w2 = "if \<not> quiet opts then say [Header (PROJECT_NAME g) (SOURCE_DIR g)] ?w1 else ?w1"
  have "phased g ?w2" by (simp add: phased_initial)
  then have "phased g (fst (finish (runFixAll sp g opts ?w2) opts))"
    unfolding phased_finish by (rule runFixAll_phased)
  moreover have "main sp argv (initialWorld d) = finish (runFixAll sp g opts ?w2) opts"
    using assms by (simp add: main_def resolve_all Let_def)
  ultimately show ?thesis by simp
qed

lemma typeCheck_entry:
  "map_of tools ''type-check'' =
     Some \<lparr>command = ''npx'', args = [''tsc'', ''--noEmit''], fixArgs = None,
           description = ''TypeScript type checking'',
           category = ''type-checking'', order = 4\<rparr>"
  by (simp add: tools_def)

lemma replaceSrc_tsc: "map (replaceSrc sd) [''tsc'', ''--noEmit''] = [''tsc'', ''--noEmit'']"
  by (simp add: replaceSrc_def)

lemma diagnostic_names:
  assumes "categoryOf name \<in> set diagnosticCategories"
  shows "name = ''security-scanning'' \<or> name = ''vulnerability-checking'' \<or>
         name = ''dead-code'' \<or> name = ''duplication'' \<or> name = ''complexity'' \<or>
         name = ''maintainability'' \<or> name = ''dependency-check''"
  using assms
  by (simp add: categoryOf_def tools_def diagnosticCategories_def split: if_splits)

lemma checkOnly_not_fix:
  assumes "checkOnly g (Run name cmd as)"
    and "categoryOf name \<in> set diagnosticCategories"
  shows "\<not> withFixCommand g (Run name cmd as)"
  using diagnostic_names [OF assms(2)]
proof (elim disjE)
  assume 1: "name = ''security-scanning''"
  have "length as = 4" using assms(1) 1 by (simp add: checkOnly_def tools_def)
  moreover have "length as = 5" if "withFixCommand g (Run name cmd as)"
    using that 1 by (simp add: withFixCommand_def tools_def)
  ultimately show ?thesis by fastforce
next
  assume "name = ''vulnerability-checking''"
  then show ?thesis by (simp add: withFixCommand_def tools_def)
next
  assume "name = ''dead-code''"
  then show ?thesis by (simp add: withFixCommand_def tools_def)
next
  assume "name = ''duplication''"
  then show ?thesis by (simp add: withFixCommand_def tools_def)
next
  assume "name = ''complexity''"
  then show ?thesis by (simp add: withFixCommand_def tools_def)
next
  assume "name = ''maintainability''"
  then show ?thesis by (simp add: withFixCommand_def tools_def)
next
  assume "name = ''dependency-check''"
  then show ?thesis by (simp add: withFixCommand_def tools_def)
qed

text \<open>
  Claim C6. In a run of \<open>all\<close> with \<open>--fix\<close>, every call of \<open>runTool\<close> is alone in its
  batch, so no two invocations (and no two formatting fixes) are in flight together; the type
  checker is spawned with its check arguments \<open>tsc --noEmit\<close>; and every spawned tool of a
  security, dead-code, duplication, complexity, maintainability or dependency category runs
  its check command, never its fix command.
\<close>

theorem fix_all_phases:
  assumes "parseArgs argv = (opts, g)" and "tool opts = ''all''" and "fixMode opts"
  shows "(\<forall>b\<in>set (batches (fst (main sp argv (initialWorld d)))). length b = 1) \<and>
         (\<forall>cmd as. Run ''type-check'' cmd as \<in> set (allChildren (fst (main sp argv (initialWorld d))))
            \<longrightarrow> cmd = ''npx'' \<and> as = [''tsc'', ''--noEmit'']) \<and>
         (\<forall>name cmd as.
            Run name cmd as \<in> set (allChildren (fst (main sp argv (initialWorld d)))) \<and>
            categoryOf name \<in> set diagnosticCategories
            \<longrightarrow> checkOnly g (Run name cmd as) \<and> \<not> withFixCommand g (Run name cmd as))"
proof -
  let ?w = "fst (main sp argv (initialWorld d))"
  from main_fix_all [OF assms] have ph: "phased g ?w" .
  then have one: "\<forall>b\<in>set (batches ?w). length b = 1"
    and ok: "\<And>c. c \<in> set (allChildren ?w) \<Longrightarrow> okChild g c"
    by (simp_all add: phased_def)
  have tc: "cmd = ''npx'' \<and> as = [''tsc'', ''--noEmit'']"
    if "Run ''type-check'' cmd as \<in> set (allChildren ?w)" for cmd as
  proof -
    from ok [OF that] have "checkOnly g (Run ''type-check'' cmd as)"
      by (simp add: okChild_def)
    then show ?thesis
      by (simp add: checkOnly_def typeCheck_entry replaceSrc_tsc del: list.map)
  qed
  have diag: "checkOnly g (Run name cmd as) \<and> \<not> withFixCommand g (Run name cmd as)"
    if "Run name cmd as \<in> set (allChildren ?w)"
      and d: "categoryOf name \<in> set diagnosticCategories" for name cmd as
  proof -
    from diagnostic_names [OF d] have "name \<noteq> ''prettier''" "name \<noteq> ''eslint''"
      by (elim disjE; simp)+
    with ok [OF that(1)] have c: "checkOnly g (Run name cmd as)"
      by (simp add: okChild_def)
    with checkOnly_not_fix [OF c d] show ?thesis by simp
  qed
  show ?thesis using one tc diag by blast
qed

theorem fix_all_phases_witness:
  "parseArgs [''all'', ''--fix''] = (fixAllOptions, defaultGlobals) \<and>
   tool fixAllOptions = ''all'' \<and> fixMode fixAllOptions \<and>
   list_all (\<lambda>b. length b = 1)
     (batches (fst (main allPass [''all'', ''--fix''] (initialWorld False)))) \<and>
   invoked (fst (main allPass [''all'', ''--fix''] (initialWorld False))) =
     [''prettier'', ''eslint'', ''type-check'', ''security-scanning'', ''vulnerability-checking'',
      ''dead-code'', ''duplication'', ''complexity'', ''maintainability'', ''dependency-check'']"
proof -
  have a: "parseArgs [''all'', ''--fix''] = (fixAllOptions, defaultGlobals)"
    by (simp add: parseArgs_def fixAllOptions_def defaultGlobals_def)
  have b: "tool fixAllOptions = ''all''" and c: "fixMode fixAllOptions"
    by (simp_all add: fixAllOptions_def)
  have d: "invoked (fst (main allPass [''all'', ''--fix''] (initialWorld False))) =
     [''prettier'', ''eslint'', ''type-check'', ''security-scanning'', ''vulnerability-checking'',
      ''dead-code'', ''duplication'', ''complexity'', ''maintainability'', ''dependency-check'']"
    by (simp add: engine_defs allPass_def showNat_small)
  have e: "list_all (\<lambda>b. length b = 1)
     (batches (fst (main allPass [''all'', ''--fix''] (initialWorld False))))"
    unfolding list_all_iff
    by (rule fix_all_phases [OF a b c, of allPass False, THEN conjunct1])
  show ?thesis using a b c e d by simp
qed

subsection \<open>Tools without a fix command\<close>

lemma probes_are_probes:
  "checkToolAvailability sp n name = Inr (probes, ok) \<Longrightarrow> runsOf probes = []"
  by (auto simp: checkToolAvailability_def runsOf_def
      split: property.splits if_splits list.splits)

text \<open>
  \<open>type-check --fix\<close> where everything passes: the check command runs, and the output
  says nothing about a missing fix command (it even ends with the note on auto-fixed issues).
\<close>

theorem no_notice_without_fix_command:
  "main allPass [''type-check'', ''--fix''] (initialWorld False) =
     (\<lparr>batches = [ [ [Probe ''type-check'' ''npx'' [''tsc'', ''--version''],
                     Run ''type-check'' ''npx'' [''tsc'', ''--noEmit''] ] ] ],
       console = [Header ''Complete Quality Suite'' ''src'',
                  Line ''TypeScript type checking'',
                  Line ''TypeScript type checking - PASSED (5ms)'',
                  Line (CHR 0x0A # rule60),
                  Line ''QUALITY CHECKS SUMMARY'',
                  Line rule60,
                  Line ''Total tools: 1'',
                  Line ''Passed: 1'',
                  Line (CHR 0x0A # ''All quality checks passed!''),
                  Line ''Some issues may have been auto-fixed.''],
       reportsDir = True\<rparr>, 0)"
  by (simp add: engine_defs allPass_def showNat_small)

text \<open>
  Claim C7, amended. For a registered tool without a fix command, \<open>runTool\<close> with the fix
  option set does exactly what it does without it, so nothing is printed about the missing
  fix command. When the availability probe succeeds the check command is spawned exactly once,
  and the result is a success precisely when that child exits with code 0.
\<close>

theorem no_fix_command_runs_check:
  assumes "map_of tools name = Some t" and "fixArgs t = None"
  shows "runTool sp g (opts\<lparr>fixMode := True\<rparr>) name n = runTool sp g (opts\<lparr>fixMode := False\<rparr>) name n \<and>
         (\<forall>probes. checkToolAvailability sp n name = Inr (probes, True) \<longrightarrow>
            (\<exists>r. runTool sp g (opts\<lparr>fixMode := True\<rparr>) name n = Finished r \<and>
                 runsOf (children r) = [Run name (command t) (map (replaceSrc (SOURCE_DIR g)) (args t))] \<and>
                 (success r \<longleftrightarrow>
                    exitedZero (sp (n + length probes) (command t)
                                  (map (replaceSrc (SOURCE_DIR g)) (args t))))))"
proof -
  have own: "getProperty tools name = Own t" using assms(1) by (rule getProperty_Own)
  have ca: "chooseArgs (opts\<lparr>fixMode := b\<rparr>) t = args t" for b
    using assms(2) by (simp add: chooseArgs_def)
  have same: "runTool sp g (opts\<lparr>fixMode := True\<rparr>) name n = runTool sp g (opts\<lparr>fixMode := False\<rparr>) name n"
    by (simp add: runTool_def own ca Let_def split: sum.splits prod.splits childOutcome.splits)
  have run: "\<exists>r. runTool sp g (opts\<lparr>fixMode := True\<rparr>) name n = Finished r \<and>
                 runsOf (children r) = [Run name (command t) (map (replaceSrc (SOURCE_DIR g)) (args t))] \<and>
                 (success r \<longleftrightarrow>
                    exitedZero (sp (n + length probes) (command t)
                                  (map (replaceSrc (SOURCE_DIR g)) (args t))))"
    if av: "checkToolAvailability sp n name = Inr (probes, True)" for probes
  proof -
    have pr: "runsOf probes = []" using probes_are_probes [OF av] .
    have pr': "filter (\<lambda>c. case c of Run _ _ _ \<Rightarrow> True | Probe _ _ _ \<Rightarrow> False) probes = []"
      using pr by (simp add: runsOf_def)
    show ?thesis
      by (cases "sp (n + length probes) (command t) (map (replaceSrc (SOURCE_DIR g)) (args t))")
        (simp_all add: runTool_def own ca av Let_def runsOf_def pr' exitedZero_def)
  qed
  show ?thesis using same run by blast
qed

theorem no_fix_command_runs_check_witness:
  "map_of tools ''type-check'' = Some typeCheckTool \<and> fixArgs typeCheckTool = None \<and>
   runTool allPass defaultGlobals fixAllOptions ''type-check'' 0 =
     runTool allPass defaultGlobals (fixAllOptions\<lparr>fixMode := False\<rparr>) ''type-check'' 0"
proof -
  have a: "map_of tools ''type-check'' = Some typeCheckTool"
    by (simp add: tools_def typeCheckTool_def)
  have b: "fixArgs typeCheckTool = None" by (simp add: typeCheckTool_def)
  have c: "fixAllOptions\<lparr>fixMode := True\<rparr> = fixAllOptions" by (simp add: fixAllOptions_def)
  have d: "runTool allPass defaultGlobals fixAllOptions ''type-check'' 0 =
     runTool allPass defaultGlobals (fixAllOptions\<lparr>fixMode := False\<rparr>) ''type-check'' 0"
    using no_fix_command_runs_check [OF a b, of allPass defaultGlobals fixAllOptions 0,
        THEN conjunct1]
    unfolding c .
  show ?thesis using a b d by simp
qed

end
